theory Spec2Isabelle
  imports Complex_Main "HOL-Library.Multiset" "HOL-Library.Word"
begin

section \<open>Data model of \<open>src/src/NtpTimeSync.ts\<close>\<close>

text \<open>
  The module is embedded from its latest snapshot (the one with \<open>maxRetries\<close> and the
  \<open>_options\<close> field). A \<open>Date\<close> is modelled by its time value \<open>getTime()\<close>, an integer
  number of milliseconds since the Unix epoch; a JavaScript \<open>number\<close> that takes part in
  arithmetic is a real, and the \<open>NaN\<close> of \<open>0 / 0\<close> in \<open>avg\<close> is written out as \<open>None\<close>.
  The numbers of the untyped configuration (\<open>Number(...)\<close> of a port) have a type of
  their own with \<open>NaN\<close> and the infinities. Rounding to binary64 is modelled only where
  the code renders the bits of a number (\<open>createPacket\<close>).
\<close>

record ntpDefaults =
  port :: real
  version :: int
  tolerance :: real
  minPoll :: real
  maxPoll :: real
  maxDispersion :: real
  minDispersion :: real
  maxDistance :: real
  maxStratum :: int
  precision :: real
  referenceDate :: int

record server =
  host :: string
  server_port :: real

record NtpTimeSyncOptions =
  servers :: "server list"
  sampleCount :: int
  replyTimeout :: int
  maxRetries :: int
  ntpDefaults :: ntpDefaults

text \<open>
  \<open>NtpReceivedPacket\<close>: the fields of the parsed reply that the module reads, and the
  \<open>destinationTimestamp\<close> stamped on receipt. The packet's own \<open>version\<close> and
  \<open>precision\<close> carry the prefix \<open>pkt_\<close>, since the configuration has fields of the
  same names.
\<close>

record NtpReceivedPacket =
  leapIndicator :: int
  pkt_version :: int
  stratum :: int
  pkt_precision :: real
  rootDelay :: int
  rootDispersion :: int
  originTimestamp :: int
  receiveTimestamp :: int
  transmitTimestamp :: int
  destinationTimestamp :: int

record SampleData =
  data :: NtpReceivedPacket
  offset :: real
  delay :: real
  dispersion :: real

text \<open>
  The errors of the module, one constructor for each \<open>new Error(...)\<close> of the source
  (the two of \<open>getNetworkTime\<close> are the timeout and an error of the socket), and the
  \<open>TypeError\<close> of the language for a property read on \<open>undefined\<close> or \<open>null\<close>.
\<close>

datatype error =
    FormatErrorVersion int int
  | StratumError
  | DistanceError
  | FormatErrorOrigin
  | TimeoutError
  | TransportError
  | ConnectionError nat
  | InvalidOption string
  | TypeError

section \<open>Response validation: \<open>acceptResponse\<close>\<close>

text \<open>
  \<open>acceptResponse\<close> throws at the first check that fails and returns nothing otherwise.
  The third argument is the clock reading of \<open>new Date().getTime()\<close> in the last check.
\<close>

definition acceptResponse :: "NtpTimeSyncOptions \<Rightarrow> NtpReceivedPacket \<Rightarrow> int \<Rightarrow> error + unit" where
  "acceptResponse opts d nowMs =
     (if pkt_version d > version (ntpDefaults opts)
        then Inl (FormatErrorVersion (version (ntpDefaults opts)) (pkt_version d))
      else if leapIndicator d = 3 \<or> stratum d \<ge> maxStratum (ntpDefaults opts)
        then Inl StratumError
      else
        let rootDelay' = real_of_int (rootDelay d - referenceDate (ntpDefaults opts)) / 1000;
            rootDispersion' = real_of_int (rootDispersion d - referenceDate (ntpDefaults opts)) / 1000
        in if rootDelay' / 2 + rootDispersion' \<ge> maxDispersion (ntpDefaults opts)
             then Inl DistanceError
           else if originTimestamp d > nowMs
             then Inl FormatErrorOrigin
           else Inr ())"

section \<open>Per-sample statistics (the \<open>forEach\<close> of \<open>collectSamples\<close>)\<close>

definition computeSample :: "NtpTimeSyncOptions \<Rightarrow> NtpReceivedPacket \<Rightarrow> SampleData" where
  "computeSample opts d =
     (let offsetSign = (if transmitTimestamp d > destinationTimestamp d then 1 else - 1 :: real);
          offset' =
            ((\<bar>real_of_int (receiveTimestamp d - originTimestamp d)\<bar>
              + \<bar>real_of_int (transmitTimestamp d - destinationTimestamp d)\<bar>) / 2) * offsetSign;
          delay' =
            max (real_of_int (destinationTimestamp d - originTimestamp d
                   - (receiveTimestamp d - transmitTimestamp d)))
                (2 powr precision (ntpDefaults opts));
          dispersion' =
            2 powr pkt_precision d + 2 powr precision (ntpDefaults opts)
            + tolerance (ntpDefaults opts)
              * real_of_int (destinationTimestamp d - originTimestamp d)
      in \<lparr>data = d, offset = offset', delay = delay', dispersion = dispersion'\<rparr>)"

section \<open>Selection and aggregation\<close>

text \<open>
  \<open>Array.prototype.slice(0, end)\<close> on an integer \<open>end\<close>: a negative \<open>end\<close> counts
  from the end of the array, and the bounds are clamped to the array.
\<close>

definition slice0 :: "'a list \<Rightarrow> int \<Rightarrow> 'a list" where
  "slice0 xs e =
     (let len = int (length xs);
          final = (if e < 0 then max (len + e) 0 else min e len)
      in take (nat final) xs)"

text \<open>
  \<open>samples.sort((a, b) => a.delay - b.delay)\<close> followed by \<open>slice(0, numSamples)\<close>.
  The sort of the language is stable; \<open>sort_key\<close> is the stable insertion sort.
\<close>

definition selectSamples :: "int \<Rightarrow> SampleData list \<Rightarrow> SampleData list" where
  "selectSamples numSamples samples = slice0 (sort_key delay samples) numSamples"

text \<open>
  \<open>avg\<close> divides the left-to-right sum by the length of the array; on the empty array
  this is \<open>0 / 0\<close>, the value \<open>NaN\<close>, written \<open>None\<close> here.
\<close>

definition avg :: "real list \<Rightarrow> real option" where
  "avg vals =
     (let sum = foldl (\<lambda>sum v. sum + v) 0 vals
      in if vals = [] then None else Some (sum / real (length vals)))"

text \<open>
  \<open>stdDev\<close>: every operation on a \<open>NaN\<close> yields \<open>NaN\<close>, so a \<open>NaN\<close> average makes
  the result \<open>NaN\<close>.
\<close>

definition stdDev :: "real list \<Rightarrow> real option" where
  "stdDev vals =
     (case avg vals of
        None \<Rightarrow> None
      | Some a \<Rightarrow>
          (let squareDiffs = map (\<lambda>v. let diff = v - a in diff * diff) vals
           in case avg squareDiffs of None \<Rightarrow> None | Some m \<Rightarrow> Some (sqrt m)))"

section \<open>Rounds and retries: the loop of \<open>collectSamples\<close>\<close>

text \<open>
  The network is an input of the model. One exchange (\<open>getNetworkTime\<close>) either rejects
  with an error or resolves with a packet; the integer beside the packet is the clock
  reading that \<open>acceptResponse\<close> takes for it. One round gives every configured server
  its exchange; the trace of a run is the list of its rounds.
\<close>

type_synonym exchange = "error + (NtpReceivedPacket \<times> int)"
type_synonym round = "server \<Rightarrow> exchange"

text \<open>
  The promise of one server in one round: \<open>getNetworkTime(...).then(acceptResponse)\<close>
  with \<open>.catch((e) => e)\<close>, so an error of either step becomes a value of the array.
\<close>

definition timePromise :: "NtpTimeSyncOptions \<Rightarrow> round \<Rightarrow> server \<Rightarrow> error + NtpReceivedPacket" where
  "timePromise opts r s =
     (case r s of
        Inl e \<Rightarrow> Inl e
      | Inr (d, nowMs) \<Rightarrow>
          (case acceptResponse opts d nowMs of Inl e \<Rightarrow> Inl e | Inr _ \<Rightarrow> Inr d))"

definition notError :: "(error + NtpReceivedPacket) list \<Rightarrow> NtpReceivedPacket list" where
  "notError results = [d. Inr d \<leftarrow> results]"

text \<open>
  What one round adds to \<open>ntpResults\<close>: the outcomes of \<open>Promise.all\<close> over the
  configured servers, less the errors. (The source filters the concatenation with the
  earlier results, which hold no error.)
\<close>

definition roundResults :: "NtpTimeSyncOptions \<Rightarrow> round \<Rightarrow> NtpReceivedPacket list" where
  "roundResults opts r = notError (map (timePromise opts r) (servers opts))"

text \<open>
  The \<open>do ... while\<close> loop. \<open>ntpResults\<close> and \<open>retry\<close> are the variables of the source;
  \<open>k\<close> counts the rounds run so far and is returned beside them (the source has no such
  variable; it is what the claims about the number of rounds observe). The loop has no
  bound of its own when rounds keep yielding too few samples: the model returns \<open>None\<close>
  when the loop asks for a round that the trace does not hold.
\<close>

fun collectLoop ::
  "NtpTimeSyncOptions \<Rightarrow> int \<Rightarrow> round list \<Rightarrow> NtpReceivedPacket list \<Rightarrow> nat \<Rightarrow> nat
     \<Rightarrow> (NtpReceivedPacket list \<times> nat \<times> nat) option" where
  "collectLoop opts numSamples [] ntpResults retry k = None"
| "collectLoop opts numSamples (r # rs) ntpResults retry k =
     (let ntpResults' = ntpResults @ roundResults opts r;
          retry' = (if length ntpResults' = 0 then retry + 1 else retry)
      in if int (length ntpResults') < numSamples \<and> int retry' < maxRetries opts
           then collectLoop opts numSamples rs ntpResults' retry' (k + 1)
         else Some (ntpResults', retry', k + 1))"

text \<open>
  \<open>collectSamples\<close>: the loop, the exhaustion error, then the samples sorted by delay
  and cut to \<open>numSamples\<close>. The second component is the number of rounds run.
\<close>

definition collectSamples ::
  "NtpTimeSyncOptions \<Rightarrow> int \<Rightarrow> round list \<Rightarrow> ((error + SampleData list) \<times> nat) option" where
  "collectSamples opts numSamples rounds =
     (case collectLoop opts numSamples rounds [] 0 0 of
        None \<Rightarrow> None
      | Some (ntpResults, retry, k) \<Rightarrow>
          if length ntpResults = 0 then Some (Inl (ConnectionError retry), k)
          else Some (Inr (selectSamples numSamples (map (computeSample opts) ntpResults)), k))"

section \<open>The cache and \<open>getTime\<close>\<close>

text \<open>
  The module variables \<open>lastPoll\<close> and \<open>lastResult\<close>, shared by every instance; \<open>None\<close>
  is \<open>undefined\<close>. A result's \<open>offset\<close> and \<open>precision\<close> are \<open>None\<close> when they are
  \<open>NaN\<close>, and its \<open>now\<close> is \<open>None\<close> when the date is invalid.
\<close>

record lastResult =
  lr_offset :: "real option"
  lr_precision :: "real option"

record cache =
  lastPoll :: "int option"
  lastResult :: "lastResult option"

record NtpTimeResult =
  now :: "int option"
  res_offset :: "real option"
  res_precision :: "real option"

definition toIntegerOrInfinity :: "real \<Rightarrow> int" where
  "toIntegerOrInfinity x = (if x \<ge> 0 then \<lfloor>x\<rfloor> else \<lceil>x\<rceil>)"

text \<open>
  \<open>date.setUTCMilliseconds(date.getUTCMilliseconds() + off)\<close> on the date with time
  value \<open>t\<close>: the milliseconds within the second are replaced by the truncated sum, and
  a time value beyond the range of dates makes the date invalid.
\<close>

definition addUTCMilliseconds :: "int \<Rightarrow> real option \<Rightarrow> int option" where
  "addUTCMilliseconds t off =
     (case off of
        None \<Rightarrow> None
      | Some x \<Rightarrow>
          (let ms = t mod 1000;
               t' = t - ms + toIntegerOrInfinity (real_of_int ms + x)
           in if \<bar>t'\<bar> > 8640000000000000 then None else Some t'))"

text \<open>
  The condition of the first \<open>if\<close> of \<open>getTime\<close>:
  \<open>!force && lastPoll && Date.now() - lastPoll < Math.pow(2, minPoll) * 1000\<close>, with the
  clock reading \<open>tCheck\<close>. As a condition \<open>lastPoll\<close> is true when it is defined and
  not \<open>0\<close>.
\<close>

definition cacheHit :: "NtpTimeSyncOptions \<Rightarrow> bool \<Rightarrow> cache \<Rightarrow> int \<Rightarrow> bool" where
  "cacheHit opts force st tCheck =
     (\<not> force
      \<and> (case lastPoll st of None \<Rightarrow> False | Some lp \<Rightarrow>
            lp \<noteq> 0 \<and> real_of_int (tCheck - lp) < 2 powr minPoll (ntpDefaults opts) * 1000))"

text \<open>
  \<open>getTime\<close>. The clock is read at \<open>tCheck\<close> (\<open>Date.now()\<close> of the cache test), at
  \<open>tPoll\<close> (\<open>lastPoll = Date.now()\<close>) and at \<open>tDate\<close> (\<open>new Date()\<close> of the returned
  result). The result holds the value of the promise, the module variables afterwards
  and the number of network rounds run; \<open>None\<close> is a call whose loop asks for more
  rounds than the trace holds. Reading \<open>lastResult.offset\<close> while \<open>lastResult\<close> is
  undefined is a \<open>TypeError\<close>.
\<close>

definition getTime ::
  "NtpTimeSyncOptions \<Rightarrow> bool \<Rightarrow> cache \<Rightarrow> int \<Rightarrow> round list \<Rightarrow> int \<Rightarrow> int
     \<Rightarrow> ((error + NtpTimeResult) \<times> cache \<times> nat) option" where
  "getTime opts force st tCheck rounds tPoll tDate =
     (if cacheHit opts force st tCheck
      then
        (case lastResult st of
           None \<Rightarrow> Some (Inl TypeError, st, 0)
         | Some lr \<Rightarrow>
             Some (Inr \<lparr>now = addUTCMilliseconds tDate (lr_offset lr),
                        res_offset = lr_offset lr,
                        res_precision = lr_precision lr\<rparr>, st, 0))
      else
        (case collectSamples opts (sampleCount opts) rounds of
           None \<Rightarrow> None
         | Some (Inl e, k) \<Rightarrow> Some (Inl e, st, k)
         | Some (Inr samples, k) \<Rightarrow>
             (let offset' =
                    (if samples = [] then None
                     else Some (foldl (\<lambda>acc item. acc + offset item) 0 samples
                                / real (length samples)));
                  precision' = stdDev (map offset samples);
                  st' = \<lparr>lastPoll = Some tPoll,
                         lastResult = Some \<lparr>lr_offset = offset', lr_precision = precision'\<rparr>\<rparr>
              in Some (Inr \<lparr>now = addUTCMilliseconds tDate offset',
                            res_offset = offset',
                            res_precision = precision'\<rparr>, st', k))))"

section \<open>Configuration: the constructor\<close>

text \<open>
  The constructor works on untyped objects, so the caller's options and the merged
  configuration are values of the language: a number is a real, \<open>NaN\<close> or an infinity;
  an object is the list of its own properties in insertion order. A string is a list of
  8-bit characters, read as code units below 256. Properties inherited from a prototype
  are not modelled (no key of the defaults names one).
\<close>

datatype jsnum = NaN | Num real | PosInfinity | NegInfinity

datatype jsval =
    JUndefined
  | JNull
  | JBool bool
  | JNum jsnum
  | JStr string
  | JDate int
  | JArr "jsval list"
  | JObj "(string \<times> jsval) list"

text \<open>\<open>ToBoolean\<close>, as applied by \<open>||\<close>.\<close>

fun toBoolean :: "jsval \<Rightarrow> bool" where
  "toBoolean JUndefined = False"
| "toBoolean JNull = False"
| "toBoolean (JBool b) = b"
| "toBoolean (JNum NaN) = False"
| "toBoolean (JNum (Num r)) = (r \<noteq> 0)"
| "toBoolean (JNum PosInfinity) = True"
| "toBoolean (JNum NegInfinity) = True"
| "toBoolean (JStr s) = (s \<noteq> [])"
| "toBoolean (JDate t) = True"
| "toBoolean (JArr xs) = True"
| "toBoolean (JObj es) = True"

text \<open>The keys of the elements of an array or a string: their indices in decimal.\<close>

definition digitChar :: "nat \<Rightarrow> char" where
  "digitChar d = char_of (48 + d)"

fun natToString :: "nat \<Rightarrow> string" where
  "natToString n = (if n < 10 then [digitChar n] else natToString (n div 10) @ [digitChar (n mod 10)])"

declare natToString.simps [simp del]

definition indexKeys :: "'a list \<Rightarrow> string list" where
  "indexKeys xs = map natToString [0..<length xs]"

text \<open>
  \<open>Object.entries\<close>, the operator \<open>in\<close> and a property read. \<open>Object.entries\<close> and a
  property read throw a \<open>TypeError\<close> on \<open>undefined\<close> and \<open>null\<close>; \<open>in\<close> throws it on
  every value that is not an object.
\<close>

fun entries :: "jsval \<Rightarrow> error + (string \<times> jsval) list" where
  "entries JUndefined = Inl TypeError"
| "entries JNull = Inl TypeError"
| "entries (JObj es) = Inr es"
| "entries (JArr xs) = Inr (zip (indexKeys xs) xs)"
| "entries (JStr s) = Inr (zip (indexKeys s) (map (\<lambda>c. JStr [c]) s))"
| "entries (JBool b) = Inr []"
| "entries (JNum n) = Inr []"
| "entries (JDate t) = Inr []"

fun js_in :: "string \<Rightarrow> jsval \<Rightarrow> error + bool" where
  "js_in key (JObj es) = Inr (key \<in> set (map fst es))"
| "js_in key (JArr xs) = Inr (key \<in> set (indexKeys xs) \<or> key = ''length'')"
| "js_in key (JDate t) = Inr False"
| "js_in key v = Inl TypeError"

fun js_get :: "jsval \<Rightarrow> string \<Rightarrow> error + jsval" where
  "js_get JUndefined key = Inl TypeError"
| "js_get JNull key = Inl TypeError"
| "js_get (JObj es) key = Inr (case map_of es key of None \<Rightarrow> JUndefined | Some v \<Rightarrow> v)"
| "js_get (JArr xs) key =
     Inr (if key = ''length'' then JNum (Num (real (length xs)))
          else case map_of (zip (indexKeys xs) xs) key of None \<Rightarrow> JUndefined | Some v \<Rightarrow> v)"
| "js_get (JStr s) key =
     Inr (if key = ''length'' then JNum (Num (real (length s)))
          else case map_of (zip (indexKeys s) (map (\<lambda>c. JStr [c]) s)) key of
                 None \<Rightarrow> JUndefined | Some v \<Rightarrow> v)"
| "js_get v key = Inr JUndefined"

text \<open>\<open>Array.isArray(v)\<close> and \<open>typeof v === "object" && v !== null\<close>.\<close>

fun isArray :: "jsval \<Rightarrow> bool" where
  "isArray (JArr xs) = True"
| "isArray v = False"

fun isObject :: "jsval \<Rightarrow> bool" where
  "isObject (JObj es) = True"
| "isObject (JArr xs) = True"
| "isObject (JDate t) = True"
| "isObject v = False"

text \<open>
  A property of an object that is itself an object and not an array is smaller than the
  object: the measure under which \<open>recursiveResolveOptions\<close> terminates.
\<close>

lemma size_map_of: "map_of es k = Some v \<Longrightarrow> size v < size (JObj es)"
  by (induction es) (auto split: if_splits)

lemma size_elem: "v \<in> set xs \<Longrightarrow> size v < size (JArr xs)"
  by (induction xs) auto

lemma map_of_zip_mem: "map_of (zip ks xs) k = Some v \<Longrightarrow> v \<in> set xs"
  by (meson in_set_zipE map_of_SomeD)

lemma js_get_smaller:
  assumes "js_get options key = Inr ov" "isObject ov" "\<not> isArray ov"
  shows "size ov < size options"
proof (cases options)
  case (JObj es)
  with assms show ?thesis by (auto split: option.splits dest: size_map_of)
next
  case (JArr xs)
  with assms show ?thesis
    by (auto split: option.splits if_splits dest!: map_of_zip_mem size_elem)
next
  case (JStr s)
  with assms show ?thesis
    by (auto split: option.splits if_splits dest!: map_of_zip_mem)
qed (use assms in auto)

text \<open>
  \<open>recursiveResolveOptions\<close>: \<open>resolveEntries\<close> is the \<open>map\<close> over
  \<open>Object.entries(defaults)\<close>, which stops at the first callback that throws, and
  \<open>resolveEntry\<close> is its callback.
\<close>

function recursiveResolveOptions :: "jsval \<Rightarrow> jsval \<Rightarrow> error + jsval"
     and resolveEntries :: "jsval \<Rightarrow> jsval \<Rightarrow> (string \<times> jsval) list \<Rightarrow> error + (string \<times> jsval) list"
     and resolveEntry :: "jsval \<Rightarrow> jsval \<Rightarrow> string \<Rightarrow> jsval \<Rightarrow> error + (string \<times> jsval)"
where
  "recursiveResolveOptions options defaults =
     (case entries defaults of
        Inl e \<Rightarrow> Inl e
      | Inr es \<Rightarrow>
          (case resolveEntries options defaults es of
             Inl e \<Rightarrow> Inl e
           | Inr mergedConfig \<Rightarrow> Inr (JObj mergedConfig)))"
| "resolveEntries options defaults [] = Inr []"
| "resolveEntries options defaults (kv # rest) =
     (case resolveEntry options defaults (fst kv) (snd kv) of
        Inl e \<Rightarrow> Inl e
      | Inr x \<Rightarrow>
          (case resolveEntries options defaults rest of
             Inl e \<Rightarrow> Inl e
           | Inr others \<Rightarrow> Inr (x # others)))"
| "resolveEntry options defaults key val =
     (case js_in key options of
        Inl e \<Rightarrow> Inl e
      | Inr inOptions \<Rightarrow>
          if \<not> inOptions then Inr (key, val)
          else
            (case js_in key defaults of
               Inl e \<Rightarrow> Inl e
             | Inr inDefaults \<Rightarrow>
                 if \<not> inDefaults then Inl (InvalidOption key)
                 else
                   (case js_get options key of
                      Inl e \<Rightarrow> Inl e
                    | Inr ov \<Rightarrow>
                        if isArray ov then Inr (key, ov)
                        else if isObject ov then
                          (case js_get defaults key of
                             Inl e \<Rightarrow> Inl e
                           | Inr dv \<Rightarrow>
                               (case recursiveResolveOptions ov dv of
                                  Inl e \<Rightarrow> Inl e
                                | Inr r \<Rightarrow> Inr (key, r)))
                        else Inr (key, ov))))"
  by pat_completeness auto

termination
  by (relation "inv_image (measure size <*lex*> measure id <*lex*> measure id)
        (\<lambda>x. case x of
               Inl (options, defaults) \<Rightarrow> (options, 2, 0)
             | Inr (Inl (options, defaults, es)) \<Rightarrow> (options, 1, length es)
             | Inr (Inr (options, defaults, key, val)) \<Rightarrow> (options, 0, 0))")
     (auto dest: js_get_smaller)

declare recursiveResolveOptions.simps [simp del]
declare resolveEntry.simps [simp del]

text \<open>
  \<open>server.split(":", 2)\<close> is the first two elements of the split at every colon.
\<close>

fun splitColon :: "string \<Rightarrow> string list" where
  "splitColon [] = [[]]"
| "splitColon (c # cs) =
     (if c = CHR '':'' then [] # splitColon cs
      else (case splitColon cs of [] \<Rightarrow> [[c]] | p # ps \<Rightarrow> (c # p) # ps))"

text \<open>
  \<open>Number(x)\<close> on a string or \<open>undefined\<close>. The string is trimmed of white space; the
  empty string is \<open>0\<close>; otherwise it must be a hexadecimal, octal or binary integer
  literal, or an optionally signed \<open>Infinity\<close> or decimal literal with optional fraction
  and exponent; anything else is \<open>NaN\<close>. \<open>roundRange\<close> is the rounding to binary64 at
  the ends of its range (overflow to an infinity, underflow to zero), which decides
  whether the number is zero; between the ends the value is kept exact.
\<close>

definition isWhiteSpace :: "char \<Rightarrow> bool" where
  "isWhiteSpace c = ((of_char c :: nat) \<in> {9, 10, 11, 12, 13, 32, 160})"

definition trimString :: "string \<Rightarrow> string" where
  "trimString s = rev (dropWhile isWhiteSpace (rev (dropWhile isWhiteSpace s)))"

definition digitValue :: "char \<Rightarrow> nat option" where
  "digitValue c =
     (let n = (of_char c :: nat)
      in if 48 \<le> n \<and> n \<le> 57 then Some (n - 48)
         else if 97 \<le> n \<and> n \<le> 102 then Some (n - 87)
         else if 65 \<le> n \<and> n \<le> 70 then Some (n - 55)
         else None)"

definition isDigitOf :: "nat \<Rightarrow> char \<Rightarrow> bool" where
  "isDigitOf radix c = (case digitValue c of None \<Rightarrow> False | Some d \<Rightarrow> d < radix)"

definition digitsValue :: "nat \<Rightarrow> string \<Rightarrow> nat" where
  "digitsValue radix ds = foldl (\<lambda>a c. radix * a + (case digitValue c of None \<Rightarrow> 0 | Some d \<Rightarrow> d)) 0 ds"

definition roundRange :: "real \<Rightarrow> jsnum" where
  "roundRange v =
     (if \<bar>v\<bar> \<ge> 2 ^ 1024 - 2 ^ 970 then (if v > 0 then PosInfinity else NegInfinity)
      else if \<bar>v\<bar> \<le> 1 / 2 ^ 1075 then Num 0
      else Num v)"

definition nonDecimalLiteral :: "nat \<Rightarrow> string \<Rightarrow> jsnum" where
  "nonDecimalLiteral radix ds =
     (if ds \<noteq> [] \<and> list_all (isDigitOf radix) ds then roundRange (real (digitsValue radix ds))
      else NaN)"

definition exponentPart :: "string \<Rightarrow> int option" where
  "exponentPart s =
     (case s of
        [] \<Rightarrow> Some 0
      | c # r \<Rightarrow>
          if c = CHR ''e'' \<or> c = CHR ''E'' then
            (let (neg, ds) = (case r of
                                [] \<Rightarrow> (False, [])
                              | c' # r' \<Rightarrow>
                                  if c' = CHR ''-'' then (True, r')
                                  else if c' = CHR ''+'' then (False, r')
                                  else (False, r))
             in if ds \<noteq> [] \<and> list_all (isDigitOf 10) ds
                  then Some (if neg then - int (digitsValue 10 ds) else int (digitsValue 10 ds))
                else None)
          else None)"

definition unsignedDecimalLiteral :: "string \<Rightarrow> real option" where
  "unsignedDecimalLiteral s =
     (let ip = takeWhile (isDigitOf 10) s;
          r1 = dropWhile (isDigitOf 10) s;
          fp = (case r1 of [] \<Rightarrow> [] | c # r \<Rightarrow>
                  if c = CHR ''.'' then takeWhile (isDigitOf 10) r else []);
          r2 = (case r1 of [] \<Rightarrow> [] | c # r \<Rightarrow>
                  if c = CHR ''.'' then dropWhile (isDigitOf 10) r else r1)
      in if ip = [] \<and> fp = [] then None
         else
           (case exponentPart r2 of
              None \<Rightarrow> None
            | Some e \<Rightarrow>
                Some ((real (digitsValue 10 ip) + real (digitsValue 10 fp) / 10 ^ length fp)
                      * (if e \<ge> 0 then 10 ^ nat e else 1 / 10 ^ nat (- e)))))"

definition stringToNumber :: "string \<Rightarrow> jsnum" where
  "stringToNumber str =
     (let s = trimString str
      in if s = [] then Num 0
         else if take 2 s = ''0x'' \<or> take 2 s = ''0X'' then nonDecimalLiteral 16 (drop 2 s)
         else if take 2 s = ''0o'' \<or> take 2 s = ''0O'' then nonDecimalLiteral 8 (drop 2 s)
         else if take 2 s = ''0b'' \<or> take 2 s = ''0B'' then nonDecimalLiteral 2 (drop 2 s)
         else
           (let neg = (hd s = CHR ''-'');
                u = (if hd s = CHR ''-'' \<or> hd s = CHR ''+'' then tl s else s)
            in if u = ''Infinity'' then (if neg then NegInfinity else PosInfinity)
               else (case unsignedDecimalLiteral u of
                       None \<Rightarrow> NaN
                     | Some v \<Rightarrow> roundRange (if neg then - v else v))))"

definition Number :: "string option \<Rightarrow> jsnum" where
  "Number x = (case x of None \<Rightarrow> NaN | Some s \<Rightarrow> stringToNumber s)"

text \<open>\<open>NtpTimeSyncDefaultOptions\<close>, as an object.\<close>

definition NtpTimeSyncDefaultOptions :: jsval where
  "NtpTimeSyncDefaultOptions =
     JObj [(''servers'', JArr [JStr ''0.pool.ntp.org'', JStr ''1.pool.ntp.org'',
                               JStr ''2.pool.ntp.org'', JStr ''3.pool.ntp.org'']),
           (''sampleCount'', JNum (Num 8)),
           (''replyTimeout'', JNum (Num 3000)),
           (''maxRetries'', JNum (Num 3)),
           (''ntpDefaults'',
              JObj [(''port'', JNum (Num 123)),
                    (''version'', JNum (Num 4)),
                    (''tolerance'', JNum (Num (15 / 1000000))),
                    (''minPoll'', JNum (Num 4)),
                    (''maxPoll'', JNum (Num 17)),
                    (''maxDispersion'', JNum (Num 16)),
                    (''minDispersion'', JNum (Num (5 / 1000))),
                    (''maxDistance'', JNum (Num 1)),
                    (''maxStratum'', JNum (Num 16)),
                    (''precision'', JNum (Num (- 18))),
                    (''referenceDate'', JDate (- 2208988800000))])]"

text \<open>
  The callback of \<open>serverConfig.map\<close>: host and port of one server string. The default
  port is read from the merged configuration only when the number parsed is false as a
  condition. A server that is not a string has no \<open>split\<close>: a \<open>TypeError\<close>.
\<close>

definition resolveServer :: "jsval \<Rightarrow> jsval \<Rightarrow> error + jsval" where
  "resolveServer mergedConfig server =
     (case server of
        JStr s \<Rightarrow>
          (let parts = take 2 (splitColon s);
               host' = hd parts;
               n = Number (if length parts > 1 then Some (parts ! 1) else None)
           in if toBoolean (JNum n)
                then Inr (JObj [(''host'', JStr host'), (''port'', JNum n)])
              else
                (case js_get mergedConfig ''ntpDefaults'' of
                   Inl e \<Rightarrow> Inl e
                 | Inr nd \<Rightarrow>
                     (case js_get nd ''port'' of
                        Inl e \<Rightarrow> Inl e
                      | Inr p \<Rightarrow> Inr (JObj [(''host'', JStr host'), (''port'', p)]))))
      | _ \<Rightarrow> Inl TypeError)"

fun mapServers :: "jsval \<Rightarrow> jsval list \<Rightarrow> error + jsval list" where
  "mapServers mergedConfig [] = Inr []"
| "mapServers mergedConfig (server # rest) =
     (case resolveServer mergedConfig server of
        Inl e \<Rightarrow> Inl e
      | Inr r \<Rightarrow>
          (case mapServers mergedConfig rest of
             Inl e \<Rightarrow> Inl e
           | Inr rs \<Rightarrow> Inr (r # rs)))"

text \<open>
  \<open>{...mergedConfig, servers: ...}\<close>: the property keeps its place when the object
  has it already.
\<close>

definition setProperty :: "(string \<times> jsval) list \<Rightarrow> string \<Rightarrow> jsval \<Rightarrow> (string \<times> jsval) list" where
  "setProperty es key v =
     (if key \<in> set (map fst es) then map (\<lambda>(k, x). if k = key then (k, v) else (k, x)) es
      else es @ [(key, v)])"

text \<open>
  The constructor, returning \<open>this._options\<close>. An absent argument is the empty object.
\<close>

definition constructor :: "jsval \<Rightarrow> error + jsval" where
  "constructor options =
     (case js_get options ''servers'' of
        Inl e \<Rightarrow> Inl e
      | Inr given \<Rightarrow>
          (case (if toBoolean given then Inr given
                 else js_get NtpTimeSyncDefaultOptions ''servers'') of
             Inl e \<Rightarrow> Inl e
           | Inr serverConfig \<Rightarrow>
               (case recursiveResolveOptions options NtpTimeSyncDefaultOptions of
                  Inl e \<Rightarrow> Inl e
                | Inr mergedConfig \<Rightarrow>
                    (case serverConfig of
                       JArr xs \<Rightarrow>
                         (case mapServers mergedConfig xs of
                            Inl e \<Rightarrow> Inl e
                          | Inr resolved \<Rightarrow>
                              (case entries mergedConfig of
                                 Inl e \<Rightarrow> Inl e
                               | Inr es \<Rightarrow> Inr (JObj (setProperty es ''servers'' (JArr resolved)))))
                     | _ \<Rightarrow> Inl TypeError))))"

text \<open>
  The options of \<open>new NtpTimeSync()\<close> as an object; \<open>defaultOptions\<close> below is the same
  configuration under the type \<open>NtpTimeSyncOptions\<close>, which the source gives it by a cast.
\<close>

definition resolvedDefaultOptions :: jsval where
  "resolvedDefaultOptions =
     JObj [(''servers'',
              JArr [JObj [(''host'', JStr ''0.pool.ntp.org''), (''port'', JNum (Num 123))],
                    JObj [(''host'', JStr ''1.pool.ntp.org''), (''port'', JNum (Num 123))],
                    JObj [(''host'', JStr ''2.pool.ntp.org''), (''port'', JNum (Num 123))],
                    JObj [(''host'', JStr ''3.pool.ntp.org''), (''port'', JNum (Num 123))]]),
           (''sampleCount'', JNum (Num 8)),
           (''replyTimeout'', JNum (Num 3000)),
           (''maxRetries'', JNum (Num 3)),
           (''ntpDefaults'',
              JObj [(''port'', JNum (Num 123)),
                    (''version'', JNum (Num 4)),
                    (''tolerance'', JNum (Num (15 / 1000000))),
                    (''minPoll'', JNum (Num 4)),
                    (''maxPoll'', JNum (Num 17)),
                    (''maxDispersion'', JNum (Num 16)),
                    (''minDispersion'', JNum (Num (5 / 1000))),
                    (''maxDistance'', JNum (Num 1)),
                    (''maxStratum'', JNum (Num 16)),
                    (''precision'', JNum (Num (- 18))),
                    (''referenceDate'', JDate (- 2208988800000))])]"

section \<open>Packet encoder: \<open>createPacket\<close>\<close>

text \<open>
  \<open>pad(string, length)\<close> with its default arguments (the character \<open>0\<close>, on the left):
  \<open>char.repeat(length).substring(0, length - string.length) + string\<close>. A string that
  is longer than \<open>length\<close> is returned as it is.
\<close>

definition pad :: "string \<Rightarrow> nat \<Rightarrow> string" where
  "pad string len = take (len - length string) (replicate len CHR ''0'') @ string"

text \<open>
  \<open>n.toString(2)\<close> on a non-negative integer, and \<open>x >>> 0\<close> on an integer.
\<close>

fun toBinary :: "nat \<Rightarrow> string" where
  "toBinary n = (if n < 2 then [digitChar n] else toBinary (n div 2) @ [digitChar (n mod 2)])"

declare toBinary.simps [simp del]

definition toUint32 :: "int \<Rightarrow> nat" where
  "toUint32 x = nat (x mod 2 ^ 32)"

text \<open>
  \<open>parseInt(str, 2)\<close>: leading white space and one sign are skipped, then the longest
  run of binary digits is read; with no digit the result is \<open>NaN\<close>. (The value is kept
  exact; the source parses eight digits at a time, and at most 96 for the first byte.)
\<close>

definition parseInt2 :: "string \<Rightarrow> jsnum" where
  "parseInt2 str =
     (let s = dropWhile isWhiteSpace str;
          neg = (s \<noteq> [] \<and> hd s = CHR ''-'');
          u = (if s \<noteq> [] \<and> (hd s = CHR ''-'' \<or> hd s = CHR ''+'') then tl s else s);
          ds = takeWhile (isDigitOf 2) u
      in if ds = [] then NaN
         else Num (if neg then - real (digitsValue 2 ds) else real (digitsValue 2 ds)))"

text \<open>
  \<open>str.substr(start, length)\<close>, and the conversion of an array element to a byte by
  \<open>Buffer.from\<close>: the number is truncated and wrapped to eight bits, \<open>NaN\<close> is \<open>0\<close>.
\<close>

definition substr :: "string \<Rightarrow> nat \<Rightarrow> nat \<Rightarrow> string" where
  "substr s start len = take len (drop start s)"

definition toUint8 :: "jsnum \<Rightarrow> 8 word" where
  "toUint8 x = (case x of Num r \<Rightarrow> word_of_int (toIntegerOrInfinity r) | _ \<Rightarrow> 0)"

text \<open>
  The timestamp is computed in binary64 arithmetic and then rendered bit by bit, so here
  the rounding of the arithmetic is part of the model. A finite binary64 number is a pair
  \<open>(m, e)\<close> standing for \<open>m * 2 ^ e\<close>. \<open>binary64Div a b\<close> is the quotient of two integers
  rounded to a significand of 53 bits, to nearest and ties to even, as the division of
  IEEE 754 rounds it (subnormal results and overflow do not arise from the quotients of
  this module and are not modelled): the exponent \<open>e\<close> is chosen so that the quotient
  scaled by \<open>2 ^ - e\<close> lies between \<open>2 ^ 52\<close> and \<open>2 ^ 53\<close>, and \<open>scaledQuotient\<close> gives
  the integer part of the scaled quotient, the remainder and the divisor.
\<close>

fun bitLength :: "nat \<Rightarrow> nat" where
  "bitLength n = (if n = 0 then 0 else Suc (bitLength (n div 2)))"

declare bitLength.simps [simp del]

type_synonym binary64 = "int \<times> int"

definition scaledQuotient :: "nat \<Rightarrow> nat \<Rightarrow> int \<Rightarrow> nat \<times> nat \<times> nat" where
  "scaledQuotient a b e =
     (let num = (if e < 0 then a * 2 ^ nat (- e) else a);
          den = (if e < 0 then b else b * 2 ^ nat e)
      in (num div den, num mod den, den))"

definition binary64Div :: "int \<Rightarrow> int \<Rightarrow> binary64" where
  "binary64Div a b =
     (if a = 0 then (0, 0)
      else
        let n = nat \<bar>a\<bar>; d = nat \<bar>b\<bar>;
            e0 = int (bitLength n) - int (bitLength d) - 53;
            e = (if fst (scaledQuotient n d e0) \<ge> 2 ^ 53 then e0 + 1 else e0);
            (q, r, den) = scaledQuotient n d e;
            m = (if 2 * r > den \<or> (2 * r = den \<and> odd q) then q + 1 else q)
        in (sgn a * sgn b * int m, e))"

text \<open>
  The value of a binary64 number that is an integer, and \<open>x.toString(2)\<close>: the binary
  expansion of \<open>x\<close>, exact, with the fraction after a point and no trailing zero.
\<close>

definition integerValue :: "binary64 \<Rightarrow> int" where
  "integerValue x = (case x of (m, e) \<Rightarrow> if e \<ge> 0 then m * 2 ^ nat e else m div 2 ^ nat (- e))"

definition fractionDigits :: "nat \<Rightarrow> nat \<Rightarrow> string" where
  "fractionDigits k f = rev (dropWhile (\<lambda>c. c = CHR ''0'') (rev (pad (toBinary f) k)))"

definition toString2 :: "binary64 \<Rightarrow> string" where
  "toString2 x =
     (case x of (m, e) \<Rightarrow>
        let n = nat \<bar>m\<bar>; minus = (if m < 0 then ''-'' else [])
        in if e \<ge> 0 then minus @ toBinary (n * 2 ^ nat e)
           else
             let k = nat (- e); ip = n div 2 ^ k; fp = n mod 2 ^ k
             in minus @ toBinary ip @ (if fp = 0 then [] else CHR ''.'' # fractionDigits k fp))"

text \<open>
  \<open>seconds * Math.pow(2, 32)\<close> with \<open>seconds = baseTime / 1000\<close> and \<open>baseTime\<close> the
  difference of the two time values: the difference and the quotient are rounded, the
  multiplication by a power of two is exact.
\<close>

definition ntpTimestampNumber :: "NtpTimeSyncOptions \<Rightarrow> int \<Rightarrow> binary64" where
  "ntpTimestampNumber opts nowMs =
     (let baseTime = integerValue (binary64Div (nowMs - referenceDate (ntpDefaults opts)) 1);
          seconds = binary64Div baseTime 1000
      in (fst seconds, snd seconds + 32))"

text \<open>
  \<open>ntpVersion || this._options.ntpDefaults.version\<close>, where \<open>None\<close> is the \<open>null\<close> default.
\<close>

definition versionOrDefault :: "NtpTimeSyncOptions \<Rightarrow> int option \<Rightarrow> int" where
  "versionOrDefault opts ntpVersion =
     (case ntpVersion of
        None \<Rightarrow> version (ntpDefaults opts)
      | Some v \<Rightarrow> if v = 0 then version (ntpDefaults opts) else v)"

text \<open>
  \<open>createPacket(leapIndicator, ntpVersion, mode)\<close> at the clock reading \<open>nowMs\<close>; the
  module calls it as \<open>createPacket()\<close>, that is \<open>createPacket opts 3 None 3 nowMs\<close>.
\<close>

definition createPacket :: "NtpTimeSyncOptions \<Rightarrow> int \<Rightarrow> int option \<Rightarrow> int \<Rightarrow> int \<Rightarrow> 8 word list" where
  "createPacket opts leapInd ntpVersion mode nowMs =
     (let ntpVersion' = versionOrDefault opts ntpVersion;
          ntpData = replicate 48 (Num 0);
          ntpData = ntpData[0 := parseInt2
                      (pad (toBinary (toUint32 leapInd)) 2
                       @ pad (toBinary (toUint32 ntpVersion')) 3
                       @ pad (toBinary (toUint32 mode)) 3)];
          ntpTimestamp = pad (toString2 (ntpTimestampNumber opts nowMs)) 64;
          ntpData = ntpData[24 := parseInt2 (substr ntpTimestamp 0 8)];
          ntpData = ntpData[25 := parseInt2 (substr ntpTimestamp 8 8)];
          ntpData = ntpData[26 := parseInt2 (substr ntpTimestamp 16 8)];
          ntpData = ntpData[27 := parseInt2 (substr ntpTimestamp 24 8)];
          ntpData = ntpData[28 := parseInt2 (substr ntpTimestamp 32 8)];
          ntpData = ntpData[29 := parseInt2 (substr ntpTimestamp 40 8)];
          ntpData = ntpData[30 := parseInt2 (substr ntpTimestamp 48 8)];
          ntpData = ntpData[31 := parseInt2 (substr ntpTimestamp 56 8)];
          ntpData = ntpData[40 := parseInt2 (substr ntpTimestamp 0 8)];
          ntpData = ntpData[41 := parseInt2 (substr ntpTimestamp 8 8)];
          ntpData = ntpData[42 := parseInt2 (substr ntpTimestamp 16 8)];
          ntpData = ntpData[43 := parseInt2 (substr ntpTimestamp 24 8)];
          ntpData = ntpData[44 := parseInt2 (substr ntpTimestamp 32 8)];
          ntpData = ntpData[45 := parseInt2 (substr ntpTimestamp 40 8)];
          ntpData = ntpData[46 := parseInt2 (substr ntpTimestamp 48 8)];
          ntpData = ntpData[47 := parseInt2 (substr ntpTimestamp 56 8)]
      in map toUint8 ntpData)"

text \<open>
  For comparison with the encoder, the timestamp as the specification words it: the
  product \<open>(nowMs - epochMs) / 1000 * 2 ^ 32\<close> rounded to the nearest integer, and the
  eight big-endian bytes of a number below \<open>2 ^ 64\<close>.
\<close>

definition specTimestamp :: "int \<Rightarrow> int \<Rightarrow> int" where
  "specTimestamp nowMs epochMs = round (real_of_int (nowMs - epochMs) / 1000 * 2 ^ 32)"

definition specTimestampBytes :: "int \<Rightarrow> 8 word list" where
  "specTimestampBytes n = map (\<lambda>i. word_of_int (n div 2 ^ (8 * (7 - i)))) [0..<8]"

section \<open>Concrete inputs\<close>

text \<open>
  The options of \<open>new NtpTimeSync()\<close>: \<open>NtpTimeSyncDefaultOptions\<close> with its four servers
  resolved to the default port. The reference date is \<open>new Date("Jan 01 1900 GMT")\<close>.
\<close>

definition defaultNtpDefaults :: ntpDefaults where
  "defaultNtpDefaults =
     \<lparr>port = 123, version = 4, tolerance = 15 / 1000000, minPoll = 4, maxPoll = 17,
      maxDispersion = 16, minDispersion = 5 / 1000, maxDistance = 1, maxStratum = 16,
      precision = - 18, referenceDate = - 2208988800000\<rparr>"

definition defaultOptions :: NtpTimeSyncOptions where
  "defaultOptions =
     \<lparr>servers = [\<lparr>host = ''0.pool.ntp.org'', server_port = 123\<rparr>,
                 \<lparr>host = ''1.pool.ntp.org'', server_port = 123\<rparr>,
                 \<lparr>host = ''2.pool.ntp.org'', server_port = 123\<rparr>,
                 \<lparr>host = ''3.pool.ntp.org'', server_port = 123\<rparr>],
      sampleCount = 8, replyTimeout = 3000, maxRetries = 3,
      ntpDefaults = defaultNtpDefaults\<rparr>"

text \<open>
  A reply that passes every check under the default options when validated at a clock
  reading of \<open>2000\<close>: root delay 10 ms and root dispersion 20 ms past the reference date.
\<close>

definition goodPacket :: NtpReceivedPacket where
  "goodPacket =
     \<lparr>leapIndicator = 0, pkt_version = 4, stratum = 2, pkt_precision = - 23,
      rootDelay = - 2208988799990, rootDispersion = - 2208988799980,
      originTimestamp = 1000, receiveTimestamp = 1030, transmitTimestamp = 1031,
      destinationTimestamp = 1021\<rparr>"

text \<open>
  A round in which the first default server answers with \<open>goodPacket\<close>, validated at a
  clock reading of \<open>2000\<close>, and every other server times out; and a round in which every
  exchange times out.
\<close>

definition oneReply :: round where
  "oneReply s = (if host s = ''0.pool.ntp.org'' then Inr (goodPacket, 2000) else Inl TimeoutError)"

definition noReply :: round where
  "noReply s = Inl TimeoutError"

text \<open>
  A second acceptable reply, with offset 22 ms and delay 18 ms where \<open>goodPacket\<close> has
  offset 20 ms and delay 22 ms, and a round in which the first two default servers answer.
\<close>

definition secondPacket :: NtpReceivedPacket where
  "secondPacket = goodPacket\<lparr>receiveTimestamp := 1034\<rparr>"

definition twoReplies :: round where
  "twoReplies s =
     (if host s = ''0.pool.ntp.org'' then Inr (goodPacket, 2000)
      else if host s = ''1.pool.ntp.org'' then Inr (secondPacket, 2000)
      else Inl TimeoutError)"

section \<open>Properties\<close>

subsection \<open>Auxiliary facts\<close>

lemma foldl_add_sum_list: "foldl (\<lambda>sum v. sum + v) (a::real) vals = a + sum_list vals"
  by (induction vals arbitrary: a) auto



lemma computeSample_stats:
  "offset (computeSample opts d) =
     (if transmitTimestamp d > destinationTimestamp d then 1 else - 1)
     * (\<bar>real_of_int (receiveTimestamp d) - real_of_int (originTimestamp d)\<bar>
        + \<bar>real_of_int (transmitTimestamp d) - real_of_int (destinationTimestamp d)\<bar>) / 2"
  "delay (computeSample opts d) =
     max (real_of_int (destinationTimestamp d) - real_of_int (originTimestamp d)
           - (real_of_int (receiveTimestamp d) - real_of_int (transmitTimestamp d)))
         (2 powr precision (ntpDefaults opts))"
  "data (computeSample opts d) = d"
  by (simp_all add: computeSample_def Let_def)

lemma selectSamples_take: "0 \<le> n \<Longrightarrow> selectSamples n xs = take (nat n) (sort_key delay xs)"
  by (auto simp: selectSamples_def slice0_def Let_def min_def)


lemma sorted_take_drop_le:
  assumes "sorted (map f ys)" "s \<in> set (take m ys)" "u \<in> set (drop m ys)"
  shows "f s \<le> f u"
proof -
  have "sorted (map f (take m ys @ drop m ys))" using assms(1) by simp
  then show ?thesis using assms(2,3) unfolding map_append sorted_append by auto
qed


lemma collectSamples_loop:
  assumes "collectSamples opts numSamples rounds = Some (Inr samples, k)"
  shows "\<exists>accepted retry. collectLoop opts numSamples rounds [] 0 0 = Some (accepted, retry, k)
           \<and> accepted \<noteq> []
           \<and> samples = selectSamples numSamples (map (computeSample opts) accepted)"
  using assms
  by (auto simp: collectSamples_def split: option.splits prod.splits if_splits)

lemma goodPacket_accepted:
  "ntpDefaults opts = defaultNtpDefaults \<Longrightarrow> acceptResponse opts goodPacket 2000 = Inr ()"
  by (simp add: acceptResponse_def defaultNtpDefaults_def goodPacket_def)

lemma servers_default:
  "servers defaultOptions =
     [\<lparr>host = ''0.pool.ntp.org'', server_port = 123\<rparr>,
      \<lparr>host = ''1.pool.ntp.org'', server_port = 123\<rparr>,
      \<lparr>host = ''2.pool.ntp.org'', server_port = 123\<rparr>,
      \<lparr>host = ''3.pool.ntp.org'', server_port = 123\<rparr>]"
  by (simp add: defaultOptions_def)

lemma fields_default:
  "maxRetries defaultOptions = 3" "sampleCount defaultOptions = 8"
  "ntpDefaults defaultOptions = defaultNtpDefaults"
  by (simp_all add: defaultOptions_def)

lemma timePromise_oneReply:
  "ntpDefaults opts = defaultNtpDefaults \<Longrightarrow>
   timePromise opts oneReply s =
     (if host s = ''0.pool.ntp.org'' then Inr goodPacket else Inl TimeoutError)"
  by (simp add: timePromise_def oneReply_def goodPacket_accepted)

lemma oneReply_round:
  "ntpDefaults opts = defaultNtpDefaults \<Longrightarrow> servers opts = servers defaultOptions \<Longrightarrow>
   roundResults opts oneReply = [goodPacket]"
  by (simp add: roundResults_def notError_def timePromise_oneReply servers_default)

lemma noReply_round: "roundResults opts noReply = []"
proof -
  have "notError (map (timePromise opts noReply) srvs) = []" for srvs
    by (induction srvs) (simp_all add: notError_def timePromise_def noReply_def)
  then show ?thesis by (simp add: roundResults_def)
qed


lemma sample_values:
  "ntpDefaults opts = defaultNtpDefaults \<Longrightarrow> delay (computeSample opts goodPacket) = 22"
  "ntpDefaults opts = defaultNtpDefaults \<Longrightarrow> delay (computeSample opts secondPacket) = 18"
  "offset (computeSample opts goodPacket) = 20"
  "offset (computeSample opts secondPacket) = 22"
  by (simp_all add: computeSample_stats secondPacket_def goodPacket_def
       defaultNtpDefaults_def powr_minus_divide)

lemma selectSamples_two:
  "ntpDefaults opts = defaultNtpDefaults \<Longrightarrow> 0 < n \<Longrightarrow>
   selectSamples n [computeSample opts goodPacket, computeSample opts secondPacket]
     = take (nat n) [computeSample opts secondPacket, computeSample opts goodPacket]"
  by (simp add: selectSamples_take sample_values)

lemma secondPacket_accepted:
  "ntpDefaults opts = defaultNtpDefaults \<Longrightarrow> acceptResponse opts secondPacket 2000 = Inr ()"
  by (simp add: acceptResponse_def defaultNtpDefaults_def goodPacket_def secondPacket_def)

lemma twoReplies_round:
  "ntpDefaults opts = defaultNtpDefaults \<Longrightarrow> servers opts = servers defaultOptions \<Longrightarrow>
   roundResults opts twoReplies = [goodPacket, secondPacket]"
  by (simp add: roundResults_def notError_def timePromise_def twoReplies_def goodPacket_accepted
        secondPacket_accepted servers_default)

lemma collectSamples_twoReplies:
  "collectSamples (defaultOptions\<lparr>sampleCount := 2\<rparr>) 2 [twoReplies]
     = Some (Inr [computeSample (defaultOptions\<lparr>sampleCount := 2\<rparr>) secondPacket,
                  computeSample (defaultOptions\<lparr>sampleCount := 2\<rparr>) goodPacket], 1)"
  by (simp add: collectSamples_def twoReplies_round fields_default selectSamples_two)


lemma getTime_twoReplies:
  "getTime (defaultOptions\<lparr>sampleCount := 2\<rparr>) True \<lparr>lastPoll = None, lastResult = None\<rparr>
       0 [twoReplies] 5000 5000
     = Some (Inr \<lparr>now = Some 5021, res_offset = Some 21, res_precision = Some 1\<rparr>,
             \<lparr>lastPoll = Some 5000,
              lastResult = Some \<lparr>lr_offset = Some 21, lr_precision = Some 1\<rparr>\<rparr>, 1)"
  by (simp add: getTime_def cacheHit_def collectSamples_twoReplies sample_values stdDev_def
        avg_def addUTCMilliseconds_def toIntegerOrInfinity_def Let_def)



lemma foldl_offset: "foldl (\<lambda>acc item. acc + offset item) 0 samples = sum_list (map offset samples)"
  using foldl_add_sum_list [of 0 "map offset samples"] by (simp add: foldl_map)

lemma getTime_None:
  "\<not> cacheHit opts force st tCheck \<Longrightarrow> collectSamples opts (sampleCount opts) rounds = None \<Longrightarrow>
   getTime opts force st tCheck rounds tPoll tDate = None"
  by (simp add: getTime_def)

lemma getTime_Inl:
  "\<not> cacheHit opts force st tCheck \<Longrightarrow>
   collectSamples opts (sampleCount opts) rounds = Some (Inl e, k) \<Longrightarrow>
   getTime opts force st tCheck rounds tPoll tDate = Some (Inl e, st, k)"
  by (simp add: getTime_def)

lemma getTime_Inr:
  "\<not> cacheHit opts force st tCheck \<Longrightarrow>
   collectSamples opts (sampleCount opts) rounds = Some (Inr samples, k) \<Longrightarrow>
   offset' = (if samples = [] then None
              else Some (sum_list (map offset samples) / real (length samples))) \<Longrightarrow>
   getTime opts force st tCheck rounds tPoll tDate =
     Some (Inr \<lparr>now = addUTCMilliseconds tDate offset', res_offset = offset',
                res_precision = stdDev (map offset samples)\<rparr>,
           \<lparr>lastPoll = Some tPoll,
            lastResult = Some \<lparr>lr_offset = offset',
                               lr_precision = stdDev (map offset samples)\<rparr>\<rparr>, k)"
  by (simp add: getTime_def Let_def foldl_offset)

lemma getTime_cached:
  "cacheHit opts force st tCheck \<Longrightarrow> lastResult st = Some lr \<Longrightarrow>
   getTime opts force st tCheck rounds tPoll tDate =
     Some (Inr \<lparr>now = addUTCMilliseconds tDate (lr_offset lr),
                res_offset = lr_offset lr, res_precision = lr_precision lr\<rparr>, st, 0)"
  by (simp add: getTime_def)

lemma getTime_fresh:
  assumes g: "getTime opts force st tCheck rounds tPoll tDate = Some (Inr res, st', k)"
      and k: "0 < k"
  shows "\<exists>selected. collectSamples opts (sampleCount opts) rounds = Some (Inr selected, k)
           \<and> res_offset res = (if selected = [] then None
                else Some (sum_list (map offset selected) / real (length selected)))
           \<and> res_precision res = stdDev (map offset selected)
           \<and> now res = addUTCMilliseconds tDate (res_offset res)
           \<and> st' = \<lparr>lastPoll = Some tPoll,
                    lastResult = Some \<lparr>lr_offset = res_offset res, lr_precision = res_precision res\<rparr>\<rparr>"
proof (cases "cacheHit opts force st tCheck")
  case True
  then have "k = 0" using g by (simp add: getTime_def split: option.splits)
  with k show ?thesis by simp
next
  case False
  show ?thesis
  proof (cases "collectSamples opts (sampleCount opts) rounds")
    case None
    with g getTime_None [OF False] show ?thesis by simp
  next
    case (Some p)
    obtain out k' where p: "p = (out, k')" by (cases p)
    show ?thesis
    proof (cases out)
      case (Inl e)
      with g getTime_Inl [OF False] Some p show ?thesis by simp
    next
      case (Inr samples)
      with Some p have c: "collectSamples opts (sampleCount opts) rounds = Some (Inr samples, k')"
        by simp
      from g getTime_Inr [OF False c refl, of tPoll tDate] c show ?thesis by auto
    qed
  qed
qed

lemma collectLoop_all_fail:
  assumes "\<forall>r \<in> set rounds. roundResults opts r = []"
      and "1 \<le> n" and "rounds \<noteq> []"
      and "maxRetries opts \<le> int retry + int (length rounds)"
  shows "collectLoop opts n rounds [] retry k0 =
           Some ([], nat (max (int retry + 1) (maxRetries opts)),
                 k0 + (nat (max (int retry + 1) (maxRetries opts)) - retry))"
  using assms
proof (induction rounds arbitrary: retry k0)
  case Nil
  then show ?case by simp
next
  case (Cons r rs)
  have e: "roundResults opts r = []" using Cons.prems(1) by simp
  show ?case
  proof (cases "int retry + 1 < maxRetries opts")
    case True
    then have "rs \<noteq> []" using Cons.prems(4) by auto
    moreover have "maxRetries opts \<le> int (retry + 1) + int (length rs)"
      using Cons.prems(4) by simp
    ultimately have IH: "collectLoop opts n rs [] (retry + 1) (k0 + 1) =
           Some ([], nat (max (int (retry + 1) + 1) (maxRetries opts)),
                 (k0 + 1) + (nat (max (int (retry + 1) + 1) (maxRetries opts)) - (retry + 1)))"
      using Cons.IH [of "retry + 1" "k0 + 1"] Cons.prems(1,2) by simp
    have m: "max (int (retry + 1) + 1) (maxRetries opts) = maxRetries opts"
            "max (int retry + 1) (maxRetries opts) = maxRetries opts"
      using True by auto
    have "collectLoop opts n (r # rs) [] retry k0 = collectLoop opts n rs [] (retry + 1) (k0 + 1)"
      using True Cons.prems(2) by (simp add: e)
    also have "\<dots> = Some ([], nat (maxRetries opts), (k0 + 1) + (nat (maxRetries opts) - (retry + 1)))"
      using IH unfolding m .
    also have "(k0 + 1) + (nat (maxRetries opts) - (retry + 1)) = k0 + (nat (maxRetries opts) - retry)"
      using True by linarith
    finally show ?thesis unfolding m .
  next
    case False
    then have m: "max (int retry + 1) (maxRetries opts) = int retry + 1" by simp
    have "collectLoop opts n (r # rs) [] retry k0 = Some ([], retry + 1, k0 + 1)"
      using False by (simp add: e)
    moreover have "nat (int retry + 1) = retry + 1" by simp
    ultimately show ?thesis unfolding m by simp
  qed
qed


lemma collectLoop_char:
  assumes "collectLoop opts n rounds acc retry k0 = Some (res, retry', k')"
  shows "\<exists>m. k' = k0 + m \<and> 1 \<le> m \<and> m \<le> length rounds
        \<and> res = acc @ concat (map (roundResults opts) (take m rounds))
        \<and> (\<forall>j. 1 \<le> j \<and> j < m \<longrightarrow>
              int (length (acc @ concat (map (roundResults opts) (take j rounds)))) < n)
        \<and> (n \<le> int (length res) \<or> maxRetries opts \<le> int retry')
        \<and> retry' = retry + (if acc = [] then
              length (takeWhile (\<lambda>r. roundResults opts r = []) (take m rounds)) else 0)"
  using assms
proof (induction rounds arbitrary: acc retry k0)
  case Nil
  then show ?case by simp
next
  case (Cons r rs)
  let ?acc = "acc @ roundResults opts r"
  let ?retry = "if length ?acc = 0 then retry + 1 else retry"
  show ?case
  proof (cases "int (length ?acc) < n \<and> int ?retry < maxRetries opts")
    case True
    then have "collectLoop opts n rs ?acc ?retry (k0 + 1) = Some (res, retry', k')"
      using Cons.prems(1) by (simp add: Let_def)
    from Cons.IH [OF this] obtain m where
      m: "k' = k0 + 1 + m" "1 \<le> m" "m \<le> length rs"
         "res = ?acc @ concat (map (roundResults opts) (take m rs))"
         "\<forall>j. 1 \<le> j \<and> j < m \<longrightarrow>
              int (length (?acc @ concat (map (roundResults opts) (take j rs)))) < n"
         "n \<le> int (length res) \<or> maxRetries opts \<le> int retry'"
         "retry' = ?retry + (if ?acc = [] then
              length (takeWhile (\<lambda>r. roundResults opts r = []) (take m rs)) else 0)"
      by blast
    have j: "int (length (acc @ concat (map (roundResults opts) (take j (r # rs))))) < n"
      if "1 \<le> j \<and> j < Suc m" for j
    proof (cases j)
      case 0
      with that show ?thesis by simp
    next
      case (Suc i)
      show ?thesis
      proof (cases "i = 0")
        case True
        with Suc \<open>int (length ?acc) < n \<and> int ?retry < maxRetries opts\<close> show ?thesis by simp
      next
        case False
        with that Suc m(5) have
          "int (length (?acc @ concat (map (roundResults opts) (take i rs)))) < n" by simp
        then show ?thesis using Suc by simp
      qed
    qed
    have rt: "retry' = retry + (if acc = [] then
              length (takeWhile (\<lambda>r. roundResults opts r = []) (take (Suc m) (r # rs))) else 0)"
      using m(7) by (auto split: if_splits)
    show ?thesis
      apply (rule exI [of _ "Suc m"])
      using m(1-4,6) j rt by simp
  next
    case False
    then have r: "res = ?acc" "retry' = ?retry" "k' = k0 + 1"
      using Cons.prems(1) by (auto simp: Let_def split: if_splits)
    have "n \<le> int (length res) \<or> maxRetries opts \<le> int retry'"
      using False r by auto
    moreover have "retry' = retry + (if acc = [] then
              length (takeWhile (\<lambda>r. roundResults opts r = []) (take 1 (r # rs))) else 0)"
      using r by auto
    ultimately show ?thesis
      apply -
      apply (rule exI [of _ 1])
      using r by simp
  qed
qed



lemma collectSamples_Inl:
  assumes "collectSamples opts n rounds = Some (Inl e, k)"
  shows "e = ConnectionError k \<and> (\<forall>r \<in> set (take k rounds). roundResults opts r = [])"
proof -
  from assms obtain res retry where
    l: "collectLoop opts n rounds [] 0 0 = Some (res, retry, k)" and "res = []"
       and e: "e = ConnectionError retry"
    by (auto simp: collectSamples_def split: option.splits prod.splits if_splits)
  from collectLoop_char [OF l] \<open>res = []\<close> have
    em: "concat (map (roundResults opts) (take k rounds)) = []"
    and rt: "retry = length (takeWhile (\<lambda>r. roundResults opts r = []) (take k rounds))"
    and k: "k \<le> length rounds"
    by auto
  from em have all: "\<forall>r \<in> set (take k rounds). roundResults opts r = []" by auto
  then have "takeWhile (\<lambda>r. roundResults opts r = []) (take k rounds) = take k rounds"
    by (simp add: takeWhile_eq_all_conv)
  with rt k have "retry = k" by simp
  with e all show ?thesis by simp
qed

lemma second_call_cached:
  assumes first: "getTime opts1 force st0 tCheck1 rounds1 tPoll1 tDate1 = Some (Inr res1, st1, k1)"
      and net: "0 < k1"
      and nz: "tPoll1 \<noteq> 0"
      and within: "real_of_int (tCheck2 - tPoll1) < 2 powr minPoll (ntpDefaults opts2) * 1000"
  shows "getTime opts2 False st1 tCheck2 rounds2 tPoll2 tDate2 =
           Some (Inr \<lparr>now = addUTCMilliseconds tDate2 (res_offset res1),
                      res_offset = res_offset res1,
                      res_precision = res_precision res1\<rparr>, st1, 0)"
proof -
  from getTime_fresh [OF first net] have
    st1: "st1 = \<lparr>lastPoll = Some tPoll1,
                 lastResult = Some \<lparr>lr_offset = res_offset res1,
                                    lr_precision = res_precision res1\<rparr>\<rparr>"
    by blast
  have hit: "cacheHit opts2 False st1 tCheck2"
    using nz within by (simp add: cacheHit_def st1)
  show ?thesis
    using getTime_cached [OF hit, of "\<lparr>lr_offset = res_offset res1,
                                    lr_precision = res_precision res1\<rparr>"]
    by (simp add: st1)
qed

lemma collectSamples_one:
  "collectSamples (defaultOptions\<lparr>sampleCount := 1\<rparr>) 1 [oneReply]
     = Some (Inr [computeSample (defaultOptions\<lparr>sampleCount := 1\<rparr>) goodPacket], 1)"
  by (simp add: collectSamples_def oneReply_round fields_default selectSamples_def slice0_def)

lemma cached_example:
  "getTime defaultOptions False
        \<lparr>lastPoll = Some 5000,
         lastResult = Some \<lparr>lr_offset = Some 20, lr_precision = Some 0\<rparr>\<rparr>
        20999 [] 0 21000
      = Some (Inr \<lparr>now = Some 21020, res_offset = Some 20, res_precision = Some 0\<rparr>,
              \<lparr>lastPoll = Some 5000,
               lastResult = Some \<lparr>lr_offset = Some 20, lr_precision = Some 0\<rparr>\<rparr>, 0)"
  by (simp add: getTime_def cacheHit_def fields_default defaultNtpDefaults_def
        addUTCMilliseconds_def toIntegerOrInfinity_def Let_def)

lemma splitColon_no_colon: "CHR '':'' \<notin> set s \<Longrightarrow> splitColon s = [s]"
  by (induction s) auto





lemma resolveServer_parts:
  assumes "js_get mergedConfig ''ntpDefaults'' = Inr nd" and "js_get nd ''port'' = Inr d"
  shows "resolveServer mergedConfig (JStr s) =
           Inr (JObj [(''host'', JStr (hd (take 2 (splitColon s)))),
                      (''port'',
                        (let n = Number (if length (take 2 (splitColon s)) > 1
                                         then Some (take 2 (splitColon s) ! 1) else None)
                         in if toBoolean (JNum n) then JNum n else d))])"
  using assms by (simp add: resolveServer_def Let_def)

lemma defaults_port:
  "js_get NtpTimeSyncDefaultOptions ''ntpDefaults'' =
     Inr (JObj [(''port'', JNum (Num 123)),
                    (''version'', JNum (Num 4)),
                    (''tolerance'', JNum (Num (15 / 1000000))),
                    (''minPoll'', JNum (Num 4)),
                    (''maxPoll'', JNum (Num 17)),
                    (''maxDispersion'', JNum (Num 16)),
                    (''minDispersion'', JNum (Num (5 / 1000))),
                    (''maxDistance'', JNum (Num 1)),
                    (''maxStratum'', JNum (Num 16)),
                    (''precision'', JNum (Num (- 18))),
                    (''referenceDate'', JDate (- 2208988800000))])"
  by (simp add: NtpTimeSyncDefaultOptions_def)


lemma entries_in:
  "entries defaults = Inr es \<Longrightarrow> (k, v) \<in> set es \<Longrightarrow> js_in k defaults \<noteq> Inr False"
  by (cases defaults) (auto dest: set_zip_leftD simp: rev_image_eqI)

lemma js_in_error: "js_in k v = Inl e \<Longrightarrow> e = TypeError"
  by (cases v) auto

lemma js_get_error: "js_get v k = Inl e \<Longrightarrow> e = TypeError"
  by (cases v) auto

lemma no_InvalidOption_aux:
  "recursiveResolveOptions options defaults \<noteq> Inl (InvalidOption k)"
  "(\<forall>(k', v) \<in> set es. js_in k' defaults \<noteq> Inr False) \<Longrightarrow>
     resolveEntries options defaults es \<noteq> Inl (InvalidOption k)"
  "js_in key defaults \<noteq> Inr False \<Longrightarrow>
     resolveEntry options defaults key val \<noteq> Inl (InvalidOption k)"
proof (induction options defaults and options defaults es and options defaults key val
       rule: recursiveResolveOptions_resolveEntries_resolveEntry.induct)
  case (1 options defaults)
  show ?case
  proof (cases "entries defaults")
    case (Inl e)
    then have "e = TypeError" by (cases defaults) auto
    with Inl show ?thesis by (simp add: recursiveResolveOptions.simps)
  next
    case (Inr es)
    then have "\<forall>(k', v) \<in> set es. js_in k' defaults \<noteq> Inr False"
      using entries_in by fastforce
    from 1 [OF Inr this] Inr show ?thesis
      by (auto simp: recursiveResolveOptions.simps split: sum.splits)
  qed
next
  case (2 options defaults)
  show ?case by simp
next
  case (3 options defaults kv rest)
  from "3.prems" have d: "js_in (fst kv) defaults \<noteq> Inr False"
    and r: "\<forall>(k', v) \<in> set rest. js_in k' defaults \<noteq> Inr False"
    by auto
  show ?case
    using "3.IH"(1) [OF d] "3.IH"(2) [OF _ r]
    by (auto split: sum.splits)
next
  case (4 options defaults key val)
  show ?case
    using "4.IH" "4.prems"
    by (auto simp: resolveEntry.simps [of options defaults key val]
             split: sum.splits if_splits dest: js_in_error js_get_error)
qed

lemma entries_error: "entries v = Inl e \<Longrightarrow> e = TypeError"
  by (cases v) auto

lemma resolveServer_error: "resolveServer m s = Inl e \<Longrightarrow> e = TypeError"
  by (auto simp: resolveServer_def Let_def split: jsval.splits if_splits sum.splits
           dest: js_get_error)

lemma mapServers_error: "mapServers m xs = Inl e \<Longrightarrow> e = TypeError"
  by (induction xs arbitrary: e) (auto split: sum.splits dest: resolveServer_error)

lemma constructor_no_InvalidOption: "constructor options \<noteq> Inl (InvalidOption key)"
proof
  assume a: "constructor options = Inl (InvalidOption key)"
  have "recursiveResolveOptions options NtpTimeSyncDefaultOptions \<noteq> Inl (InvalidOption key)"
    by (rule no_InvalidOption_aux(1))
  with a show False
    unfolding constructor_def
    by (auto split: sum.splits if_splits jsval.splits
             dest: js_get_error mapServers_error entries_error)
qed

lemma merge_unknown:
  "recursiveResolveOptions (JObj [(''unknownOption'', JNum (Num 1))]) NtpTimeSyncDefaultOptions
     = Inr NtpTimeSyncDefaultOptions"
  by (simp add: recursiveResolveOptions.simps resolveEntry.simps NtpTimeSyncDefaultOptions_def)

lemma merge_nested_unknown:
  "recursiveResolveOptions
      (JObj [(''ntpDefaults'', JObj [(''unknownOption'', JNum (Num 1))])]) NtpTimeSyncDefaultOptions
     = Inr NtpTimeSyncDefaultOptions"
  by (simp add: recursiveResolveOptions.simps resolveEntry.simps NtpTimeSyncDefaultOptions_def)

lemma resolve_default_servers:
  "mapServers NtpTimeSyncDefaultOptions
     [JStr ''0.pool.ntp.org'', JStr ''1.pool.ntp.org'', JStr ''2.pool.ntp.org'', JStr ''3.pool.ntp.org'']
   = Inr [JObj [(''host'', JStr ''0.pool.ntp.org''), (''port'', JNum (Num 123))],
          JObj [(''host'', JStr ''1.pool.ntp.org''), (''port'', JNum (Num 123))],
          JObj [(''host'', JStr ''2.pool.ntp.org''), (''port'', JNum (Num 123))],
          JObj [(''host'', JStr ''3.pool.ntp.org''), (''port'', JNum (Num 123))]]"
  by (simp add: resolveServer_parts [OF defaults_port, of "JNum (Num 123)"] splitColon_no_colon
        Number_def)

lemma digitValue_digitChar: "d < 10 \<Longrightarrow> digitValue (digitChar d) = Some d"
  by (simp add: digitValue_def digitChar_def)

lemma isDigitOf_digitChar: "d < 2 \<Longrightarrow> isDigitOf 2 (digitChar d)"
  by (simp add: isDigitOf_def digitValue_digitChar)

lemma toBinary_digits: "list_all (isDigitOf 2) (toBinary n)"
proof (induction n rule: toBinary.induct)
  case (1 n)
  show ?case
  proof (cases "n < 2")
    case True
    then show ?thesis by (subst toBinary.simps) (simp add: isDigitOf_digitChar)
  next
    case False
    with 1 show ?thesis by (subst toBinary.simps) (simp add: isDigitOf_digitChar)
  qed
qed

lemma foldl_digits:
  "foldl (\<lambda>a c. r * a + f c) x ds = x * r ^ length ds + foldl (\<lambda>a c. r * a + f c) 0 ds"
  for r x :: nat
proof (induction ds arbitrary: x)
  case Nil
  show ?case by simp
next
  case (Cons c cs)
  define g where "g = (\<lambda>a c. r * a + f c)"
  have IH: "foldl g y cs = y * r ^ length cs + foldl g 0 cs" for y
    unfolding g_def by (rule Cons.IH)
  have "foldl g x (c # cs) = foldl g (r * x + f c) cs" by (simp add: g_def)
  also have "\<dots> = (r * x + f c) * r ^ length cs + foldl g 0 cs" by (rule IH)
  also have "\<dots> = x * r ^ length (c # cs) + (f c * r ^ length cs + foldl g 0 cs)"
    by (simp add: algebra_simps)
  also have "f c * r ^ length cs + foldl g 0 cs = foldl g (f c) cs" by (rule IH [symmetric])
  also have "foldl g (f c) cs = foldl g 0 (c # cs)" by (simp add: g_def)
  finally show ?case unfolding g_def .
qed

lemma digitsValue_append:
  "digitsValue r (a @ b) = digitsValue r a * r ^ length b + digitsValue r b"
  unfolding digitsValue_def foldl_append
  by (rule foldl_digits)

lemma digitsValue_single: "d < 10 \<Longrightarrow> digitsValue r [digitChar d] = d"
  by (simp add: digitsValue_def digitValue_digitChar)

lemma digitsValue_toBinary: "digitsValue 2 (toBinary n) = n"
proof (induction n rule: toBinary.induct)
  case (1 n)
  show ?case
  proof (cases "n < 2")
    case True
    then show ?thesis by (subst toBinary.simps) (simp add: digitsValue_single)
  next
    case False
    with 1 show ?thesis
      by (subst toBinary.simps) (simp add: digitsValue_append digitsValue_single)
  qed
qed

lemma length_toBinary: "n < 2 ^ k \<Longrightarrow> 0 < k \<Longrightarrow> length (toBinary n) \<le> k"
proof (induction n arbitrary: k rule: toBinary.induct)
  case (1 n)
  show ?case
  proof (cases "n < 2")
    case True
    with "1.prems" show ?thesis by (subst toBinary.simps) simp
  next
    case False
    with "1.prems" obtain k' where k: "k = Suc k'" "0 < k'"
      by (cases k; cases "k - 1") auto
    with "1.prems" have "n div 2 < 2 ^ k'" by auto
    from "1.IH" [OF False this k(2)] False k show ?thesis
      by (subst toBinary.simps) simp
  qed
qed

lemma toBinary_nonempty: "toBinary n \<noteq> []"
  by (subst toBinary.simps) simp

lemma digitsValue_bound: "list_all (isDigitOf 2) ds \<Longrightarrow> digitsValue 2 ds < 2 ^ length ds"
proof (induction ds rule: rev_induct)
  case Nil
  show ?case by (simp add: digitsValue_def)
next
  case (snoc c cs)
  then have "digitsValue 2 cs < 2 ^ length cs" by simp
  moreover from snoc.prems obtain d where "digitValue c = Some d" "d < 2"
    by (auto simp: isDigitOf_def split: option.splits)
  then have "digitsValue 2 [c] < 2" by (simp add: digitsValue_def)
  ultimately show ?case by (simp add: digitsValue_append)
qed

lemma pad_eq: "pad s k = replicate (k - length s) CHR ''0'' @ s"
  by (simp add: pad_def min_def)

lemma digitValue_zero: "digitValue CHR ''0'' = Some 0"
  by (simp add: digitValue_def)

lemma digitsValue_zeros: "digitsValue r (replicate n CHR ''0'') = 0"
proof (induction n)
  case 0
  show ?case by (simp add: digitsValue_def)
next
  case (Suc n)
  have "digitsValue r (replicate (Suc n) CHR ''0'') = digitsValue r ([CHR ''0''] @ replicate n CHR ''0'')"
    by simp
  also have "\<dots> = 0"
    unfolding digitsValue_append using Suc by (simp add: digitsValue_def digitValue_zero)
  finally show ?case .
qed

lemma digitsValue_pad: "digitsValue 2 (pad s k) = digitsValue 2 s"
  by (simp add: pad_eq digitsValue_append digitsValue_zeros)

lemma digits_pad: "list_all (isDigitOf 2) s \<Longrightarrow> list_all (isDigitOf 2) (pad s k)"
  by (auto simp: pad_eq list_all_iff isDigitOf_def digitValue_zero)

lemma length_pad: "length s \<le> k \<Longrightarrow> length (pad s k) = k"
  by (simp add: pad_eq)

lemma digits_slice:
  assumes "list_all (isDigitOf 2) ds" and "j + k \<le> length ds"
  shows "digitsValue 2 (take k (drop j ds)) = (digitsValue 2 ds div 2 ^ (length ds - (j + k))) mod 2 ^ k"
proof -
  define a b c where "a = take j ds" and "b = take k (drop j ds)" and "c = drop (j + k) ds"
  have ds: "ds = a @ b @ c"
    unfolding a_def b_def c_def
    by (metis append_take_drop_id drop_drop add.commute)
  have lb: "length b = k" and lc: "length c = length ds - (j + k)"
    using assms(2) by (simp_all add: b_def c_def)
  have "list_all (isDigitOf 2) b" "list_all (isDigitOf 2) c"
    using assms(1) by (auto simp: b_def c_def list_all_iff dest: in_set_takeD in_set_dropD)
  then have bb: "digitsValue 2 b < 2 ^ k" and bc: "digitsValue 2 c < 2 ^ (length ds - (j + k))"
    using digitsValue_bound lb lc by metis+
  have "digitsValue 2 ds =
          (digitsValue 2 a * 2 ^ k + digitsValue 2 b) * 2 ^ (length ds - (j + k)) + digitsValue 2 c"
    by (subst ds) (simp only: digitsValue_append lb lc length_append add_mult_distrib
                     power_add mult.assoc)
  then have "digitsValue 2 ds div 2 ^ (length ds - (j + k)) = digitsValue 2 a * 2 ^ k + digitsValue 2 b"
    using bc by simp
  then show ?thesis using bb by (simp add: b_def)
qed


lemma binary_digit_char:
  assumes "isDigitOf 2 c"
  shows "\<not> isWhiteSpace c" "c \<noteq> CHR ''-''" "c \<noteq> CHR ''+''"
proof -
  from assms have "(of_char c :: nat) = 48 \<or> (of_char c :: nat) = 49"
    by (auto simp: isDigitOf_def digitValue_def Let_def split: if_splits)
  then show "\<not> isWhiteSpace c" "c \<noteq> CHR ''-''" "c \<noteq> CHR ''+''"
    by (auto simp: isWhiteSpace_def)
qed

lemma parseInt2_digits:
  assumes "ds \<noteq> []" and "list_all (isDigitOf 2) ds"
  shows "parseInt2 ds = Num (real (digitsValue 2 ds))"
proof -
  from assms obtain c cs where ds: "ds = c # cs" and c: "isDigitOf 2 c"
    by (cases ds) auto
  have 1: "dropWhile isWhiteSpace ds = ds"
    using binary_digit_char(1) [OF c] by (simp add: ds)
  have 2: "takeWhile (isDigitOf 2) ds = ds"
    using assms(2) by (simp add: takeWhile_eq_all_conv list_all_iff)
  show ?thesis
    unfolding parseInt2_def 1 Let_def
    using binary_digit_char(2,3) [OF c] 2 assms(1) by (simp add: ds)
qed

lemma toUint8_nat: "toUint8 (Num (real n)) = word_of_int (int n)"
  by (simp add: toUint8_def toIntegerOrInfinity_def)

lemma word8_mod: "(word_of_int (x mod 2 ^ 8) :: 8 word) = word_of_int x"
  using wi_bintr [of 8 x, where ?'a = 8] by (simp add: take_bit_eq_mod)

lemma bitLength_eval:
  "bitLength 0 = 0" "bitLength (Suc 0) = 1"
  "bitLength (numeral k) = Suc (bitLength (numeral k div 2))"
  by (subst bitLength.simps, simp add: bitLength.simps [of 0])+

lemma digitChar_eval: "digitChar 0 = CHR ''0''" "digitChar (Suc 0) = CHR ''1''" "digitChar 1 = CHR ''1''"
  unfolding digitChar_def by (rule of_char_eqI [where ?'a = nat], simp)+

lemma toBinary_eval:
  "toBinary 0 = ''0''" "toBinary (Suc 0) = ''1''"
  "toBinary (numeral k) =
     (if numeral k < (2::nat) then [digitChar (numeral k)]
      else toBinary (numeral k div 2) @ [digitChar (numeral k mod 2)])"
  by (subst toBinary.simps, simp add: digitChar_eval)+

lemma timestamp_number_example: "ntpTimestampNumber defaultOptions 1700000000001 = (8197743679899697, 11)"
  by (simp add: ntpTimestampNumber_def binary64Div_def integerValue_def scaledQuotient_def
        bitLength_eval fields_default defaultNtpDefaults_def Let_def)

lemma toUint8_zero: "toUint8 (Num 0) = 0"
  by (simp add: toUint8_def toIntegerOrInfinity_def)

lemma createPacket_explicit:
  "createPacket opts leapInd ntpVersion mode nowMs =
     (let b0 = toUint8 (parseInt2
                      (pad (toBinary (toUint32 leapInd)) 2
                       @ pad (toBinary (toUint32 (versionOrDefault opts ntpVersion))) 3
                       @ pad (toBinary (toUint32 mode)) 3));
          ts = map (\<lambda>i. toUint8 (parseInt2 (substr (pad (toString2 (ntpTimestampNumber opts nowMs)) 64) (8 * i) 8))) [0..<8]
      in b0 # replicate 23 0 @ ts @ replicate 8 0 @ ts)"
  by (simp add: createPacket_def Let_def eval_nat_numeral toUint8_zero upt_rec)


lemma packet_shape:
  fixes ts :: "'a list" and first z :: 'a
  assumes "length ts = 8"
  defines "xs \<equiv> first # replicate 23 z @ ts @ replicate 8 z @ ts"
  shows "length xs = 48"
    and "i < 8 \<Longrightarrow> xs ! (24 + i) = ts ! i"
    and "i < 8 \<Longrightarrow> xs ! (40 + i) = ts ! i"
    and "i < 48 \<Longrightarrow> i \<noteq> 0 \<Longrightarrow> \<not> (24 \<le> i \<and> i < 32) \<Longrightarrow> i < 40 \<Longrightarrow> xs ! i = z"
    and "xs ! 0 = first"
  using assms(1) unfolding xs_def
  by (auto simp: nth_append nth_Cons')

lemma timestamp_digits:
  assumes "0 \<le> m" "0 \<le> e" "m * 2 ^ nat e < 2 ^ 64"
  defines "ts \<equiv> pad (toString2 (m, e)) 64"
  shows "length ts = 64" "list_all (isDigitOf 2) ts" "int (digitsValue 2 ts) = m * 2 ^ nat e"
proof -
  define V where "V = nat m * 2 ^ nat e"
  have V: "int V = m * 2 ^ nat e" using assms(1) by (simp add: V_def)
  then have "V < 2 ^ 64" using assms(3) by (metis of_nat_less_numeral_power_cancel_iff) 
  have t: "toString2 (m, e) = toBinary V"
    using assms(1,2) by (simp add: toString2_def V_def Let_def)
  have "length (toBinary V) \<le> 64" using \<open>V < 2 ^ 64\<close> by (simp add: length_toBinary)
  then show "length ts = 64" by (simp add: ts_def t length_pad)
  show "list_all (isDigitOf 2) ts" by (simp add: ts_def t digits_pad toBinary_digits)
  show "int (digitsValue 2 ts) = m * 2 ^ nat e"
    by (simp add: ts_def t digitsValue_pad digitsValue_toBinary V)
qed

lemma timestamp_byte:
  assumes "0 \<le> m" "0 \<le> e" "m * 2 ^ nat e < 2 ^ 64" "i < 8"
  shows "toUint8 (parseInt2 (substr (pad (toString2 (m, e)) 64) (8 * i) 8))
           = word_of_int (m * 2 ^ nat e div 2 ^ (8 * (7 - i)))"
proof -
  define ts where "ts = pad (toString2 (m, e)) 64"
  note d = timestamp_digits [OF assms(1-3), folded ts_def]
  define piece where "piece = take 8 (drop (8 * i) ts)"
  have le: "8 * i + 8 \<le> length ts" using assms(4) d(1) by simp
  have len: "length piece = 8" using le by (simp add: piece_def)
  have dig: "list_all (isDigitOf 2) piece"
    using d(2) by (auto simp: piece_def list_all_iff dest: in_set_takeD in_set_dropD)
  have val: "digitsValue 2 piece = (digitsValue 2 ts div 2 ^ (64 - (8 * i + 8))) mod 2 ^ 8"
    unfolding piece_def using digits_slice [OF d(2) le] d(1) by simp
  have ex: "64 - (8 * i + 8) = 8 * (7 - i)" using assms(4) by simp
  have ne: "piece \<noteq> []" using len by auto
  have "toUint8 (parseInt2 piece) = word_of_int (int (digitsValue 2 piece))"
    unfolding parseInt2_digits [OF ne dig] toUint8_nat ..
  also have "int (digitsValue 2 piece) = (m * 2 ^ nat e div 2 ^ (8 * (7 - i))) mod 2 ^ 8"
    unfolding val ex by (simp add: zmod_int zdiv_int d(3))
  finally show ?thesis
    unfolding piece_def ts_def substr_def by (simp only: word8_mod)
qed


lemma field_digits:
  assumes "0 \<le> x" "x < 2 ^ k" "0 < k" "k \<le> 32"
  shows "length (pad (toBinary (toUint32 x)) k) = k"
    and "list_all (isDigitOf 2) (pad (toBinary (toUint32 x)) k)"
    and "digitsValue 2 (pad (toBinary (toUint32 x)) k) = nat x"
proof -
  have "x < 2 ^ 32"
    using assms(2,4) power_increasing [of k 32 "2::int"] by simp
  then have u: "toUint32 x = nat x" using assms(1) by (simp add: toUint32_def)
  have "nat x < 2 ^ k" using assms(1,2) by (simp add: nat_less_iff)
  then have "length (toBinary (nat x)) \<le> k" using assms(3) by (rule length_toBinary)
  then show "length (pad (toBinary (toUint32 x)) k) = k" by (simp add: u length_pad)
  show "list_all (isDigitOf 2) (pad (toBinary (toUint32 x)) k)"
    by (simp add: digits_pad toBinary_digits)
  show "digitsValue 2 (pad (toBinary (toUint32 x)) k) = nat x"
    by (simp add: u digitsValue_pad digitsValue_toBinary)
qed

lemma first_byte:
  assumes "0 \<le> l" "l < 4" "0 \<le> v" "v < 8" "0 \<le> m" "m < 8"
  shows "toUint8 (parseInt2 (pad (toBinary (toUint32 l)) 2 @ pad (toBinary (toUint32 v)) 3
                              @ pad (toBinary (toUint32 m)) 3))
           = word_of_int (64 * l + 8 * v + m)"
proof -
  note L = field_digits [of l 2] and V = field_digits [of v 3] and M = field_digits [of m 3]
  define s where "s = pad (toBinary (toUint32 l)) 2 @ pad (toBinary (toUint32 v)) 3
                       @ pad (toBinary (toUint32 m)) 3"
  have dig: "list_all (isDigitOf 2) s"
    using L(2) V(2) M(2) assms by (simp add: s_def)
  have ne: "s \<noteq> []" using L(1) assms by (auto simp: s_def)
  have "digitsValue 2 s = (nat l * 2 ^ 3 + nat v) * 2 ^ 3 + nat m"
    using L(3) V(1,3) M(1,3) assms by (simp add: s_def digitsValue_append)
  then have "int (digitsValue 2 s) = 64 * l + 8 * v + m"
    using assms by simp
  then show ?thesis
    unfolding s_def [symmetric] parseInt2_digits [OF ne dig] toUint8_nat by simp
qed

lemma timestamp_byte_at:
  assumes "0 \<le> m" "0 \<le> e" "m * 2 ^ nat e < 2 ^ 64" "j \<le> 56" "j mod 8 = 0"
  shows "toUint8 (parseInt2 (substr (pad (toString2 (m, e)) 64) j 8))
           = word_of_int (m * 2 ^ nat e div 2 ^ (56 - j))"
proof -
  from assms(4,5) have "j div 8 < 8" "8 * (j div 8) = j" "8 * (7 - j div 8) = 56 - j"
    by auto
  with timestamp_byte [OF assms(1-3), of "j div 8"] show ?thesis by simp
qed

lemma timestamp_bytes_example:
  "map (\<lambda>i. toUint8 (parseInt2
          (substr (pad (toString2 (ntpTimestampNumber defaultOptions 1700000000001)) 64) (8 * i) 8)))
       [0..<8]
   = [232, 254, 111, 128, 0, 65, 136, 0]"
  by (simp add: timestamp_number_example timestamp_byte_at upt_rec)

lemma first_byte_default:
  "toUint8 (parseInt2 (pad (toBinary (toUint32 3)) 2
                       @ pad (toBinary (toUint32 (versionOrDefault defaultOptions None))) 3
                       @ pad (toBinary (toUint32 3)) 3)) = 227"
  using first_byte [of 3 4 3]
  by (simp add: versionOrDefault_def fields_default defaultNtpDefaults_def)

lemma packet_example:
  "createPacket defaultOptions 3 None 3 1700000000001 =
     [227, 0, 0, 0, 0, 0, 0, 0, 0, 0, 0, 0, 0, 0, 0, 0, 0, 0, 0, 0, 0, 0, 0, 0,
      232, 254, 111, 128, 0, 65, 136, 0, 0, 0, 0, 0, 0, 0, 0, 0,
      232, 254, 111, 128, 0, 65, 136, 0]"
  unfolding createPacket_explicit Let_def timestamp_bytes_example first_byte_default
  by (simp add: eval_nat_numeral)

lemma specTimestamp_example:
  "specTimestamp 1700000000001 (- 2208988800000) = 16788979056434579767"
  unfolding specTimestamp_def
  by (rule round_unique) simp_all

lemma rollover_number: "ntpTimestampNumber defaultOptions 2085978496000 = (4503599627370496, 12)"
  by (simp add: ntpTimestampNumber_def binary64Div_def integerValue_def scaledQuotient_def
        bitLength_eval fields_default defaultNtpDefaults_def Let_def)

lemma rollover_string:
  "toString2 (4503599627370496, 12)
     = ''10000000000000000000000000000000000000000000000000000000000000000''"
  by (simp add: toString2_def toBinary_eval digitChar_eval)

lemma parseInt2_examples:
  "parseInt2 ''10000000'' = Num 128" "parseInt2 ''00000000'' = Num 0"
  by (simp_all add: parseInt2_def isWhiteSpace_def isDigitOf_def digitValue_def digitsValue_def)

lemma rollover_bytes:
  "map (\<lambda>i. toUint8 (parseInt2
          (substr (pad (toString2 (ntpTimestampNumber defaultOptions 2085978496000)) 64) (8 * i) 8)))
       [0..<8]
   = [128, 0, 0, 0, 0, 0, 0, 0]"
  by (simp add: rollover_number rollover_string pad_def substr_def upt_rec parseInt2_examples
        toUint8_def toIntegerOrInfinity_def)

lemma packet_rollover:
  "createPacket defaultOptions 3 None 3 2085978496000 =
     [227, 0, 0, 0, 0, 0, 0, 0, 0, 0, 0, 0, 0, 0, 0, 0, 0, 0, 0, 0, 0, 0, 0, 0,
      128, 0, 0, 0, 0, 0, 0, 0, 0, 0, 0, 0, 0, 0, 0, 0,
      128, 0, 0, 0, 0, 0, 0, 0]"
  unfolding createPacket_explicit Let_def rollover_bytes first_byte_default
  by (simp add: eval_nat_numeral)

lemma specTimestamp_rollover:
  "specTimestamp 2085978496000 (- 2208988800000) = 2 ^ 64"
  unfolding specTimestamp_def
  by (rule round_unique) simp_all

lemma bitLength_bounds: "0 < n \<Longrightarrow> 2 ^ (bitLength n - 1) \<le> n \<and> n < 2 ^ bitLength n"
proof (induction n rule: bitLength.induct)
  case (1 n)
  show ?case
  proof (cases "n div 2 = 0")
    case True
    with "1.prems" have n: "n = 1" by auto
    show ?thesis by (simp add: n bitLength_eval)
  next
    case False
    then have pos: "0 < n div 2" by simp
    from "1.IH" [OF _ pos] "1.prems" have
      IH: "2 ^ (bitLength (n div 2) - 1) \<le> n div 2" "n div 2 < 2 ^ bitLength (n div 2)"
      by auto
    have bl: "bitLength n = Suc (bitLength (n div 2))"
      using "1.prems" by (subst bitLength.simps) simp
    have bp: "0 < bitLength (n div 2)"
      using pos by (subst bitLength.simps) simp
    then obtain j where j: "bitLength (n div 2) = Suc j" by (cases "bitLength (n div 2)") auto
    from IH have "2 * 2 ^ j \<le> n" "n < 2 * 2 ^ Suc j"
      unfolding j by auto
    then show ?thesis unfolding bl j by simp
  qed
qed

lemma bitLength_unique:
  assumes "2 ^ k \<le> n" "n < 2 ^ Suc k"
  shows "bitLength n = Suc k"
proof -
  have pos: "0 < n" using assms(1) by (cases n) auto
  note b = bitLength_bounds [OF pos]
  have "k < bitLength n"
  proof (rule ccontr)
    assume "\<not> k < bitLength n"
    then have "bitLength n \<le> k" by simp
    then have "(2::nat) ^ bitLength n \<le> 2 ^ k" by (rule power_increasing) simp
    with b assms(1) show False by simp
  qed
  moreover have "bitLength n - 1 < Suc k"
  proof (rule ccontr)
    assume "\<not> bitLength n - 1 < Suc k"
    then have "Suc k \<le> bitLength n - 1" by simp
    then have "(2::nat) ^ Suc k \<le> 2 ^ (bitLength n - 1)" by (rule power_increasing) simp
    with b assms(2) show False by simp
  qed
  ultimately show ?thesis by simp
qed


lemma binary64Div_one:
  assumes "0 < a" "a < 2 ^ 53"
  shows "integerValue (binary64Div a 1) = a"
proof -
  define n where "n = nat a"
  have n: "0 < n" "int n = a" "n < 2 ^ 53"
    using assms by (simp_all add: n_def nat_less_iff)
  define l where "l = bitLength n"
  note b = bitLength_bounds [OF n(1), folded l_def]
  have l53: "l \<le> 53"
  proof (rule ccontr)
    assume "\<not> l \<le> 53"
    then have "53 \<le> l - 1" by simp
    then have "(2::nat) ^ 53 \<le> 2 ^ (l - 1)" by (rule power_increasing) simp
    with b n(3) show False by simp
  qed
  have lpos: "0 < l" using n(1) unfolding l_def by (subst bitLength.simps) simp
  define k where "k = 53 - l"
  have e0: "int l - int (bitLength (Suc 0)) - 53 = - int (Suc k)"
    using l53 lpos by (simp add: bitLength_eval k_def)
  have big: "2 ^ 53 \<le> n * 2 ^ Suc k"
  proof -
    have "(2::nat) ^ 53 = 2 ^ (l - 1) * 2 ^ Suc k"
      using l53 lpos by (simp add: k_def power_add [symmetric])
    also have "\<dots> \<le> n * 2 ^ Suc k" using b by simp
    finally show ?thesis .
  qed
  show ?thesis
  proof (cases k)
    case 0
    with e0 big show ?thesis
      using assms(1) n
      by (simp add: binary64Div_def Let_def scaledQuotient_def integerValue_def
            l_def [symmetric] n_def [symmetric])
  next
    case (Suc j)
    with e0 big show ?thesis
      using assms(1) n
      by (simp add: binary64Div_def Let_def scaledQuotient_def integerValue_def
            l_def [symmetric] n_def [symmetric] nat_add_distrib)
  qed
qed


lemma bitLength_1000: "bitLength 1000 = 10"
  by (simp add: bitLength_eval)

lemma binary64Div_era:
  assumes "2147483648000 \<le> a" "a < 4294967296000"
  shows "\<exists>m. binary64Div a 1000 = (m, - 21) \<and> 2 ^ 52 \<le> m \<and> m < 2 ^ 53
             \<and> \<bar>real_of_int m / 2 ^ 21 - real_of_int a / 1000\<bar> \<le> 1 / 2 ^ 22"
proof -
  define n where "n = nat a"
  have n: "int n = a" "2147483648000 \<le> n" "n < 4294967296000"
    using assms by (simp_all add: n_def)
  define N where "N = n * 2 ^ 21"
  define q r where "q = N div 1000" and "r = N mod 1000"
  have qr: "N = 1000 * q + r" and r: "r < 1000"
    by (simp_all add: q_def r_def)
  have N: "2 ^ 52 * 1000 \<le> N" "N \<le> 2 ^ 53 * 1000 - 2 ^ 21"
    using n(2,3) unfolding N_def by simp_all
  have qlo: "2 ^ 52 \<le> q" using N(1) unfolding q_def by simp
  have qhi: "q \<le> 2 ^ 53 - 2"
  proof -
    have "q \<le> (2 ^ 53 * 1000 - 2 ^ 21) div 1000" unfolding q_def using N(2) by (rule div_le_mono)
    then show ?thesis by simp
  qed
  have sq: "scaledQuotient n 1000 (- 21) = (q, r, 1000)"
    unfolding scaledQuotient_def q_def r_def N_def by simp
  define m where "m = (if 2 * r > 1000 \<or> (2 * r = 1000 \<and> odd q) then q + 1 else q)"
  have a0: "a \<noteq> 0" using assms by simp
  have d: "binary64Div a 1000 = (int m, - 21)"
  proof (cases "n < 2 ^ 41")
    case True
    have bl: "bitLength n = 41" using n(2) True bitLength_unique [of 40 n] by simp
    have "2 ^ 53 \<le> fst (scaledQuotient n 1000 (- 22))"
    proof -
      have "2 ^ 53 * 1000 \<le> n * 2 ^ 22" using n(2) by simp
      then have "2 ^ 53 * 1000 div 1000 \<le> n * 2 ^ 22 div 1000" by (rule div_le_mono)
      then show ?thesis unfolding scaledQuotient_def by simp
    qed
    then have big: "(9007199254740992 \<le> fst (scaledQuotient n 1000 (- 22))) = True" by simp
    show ?thesis
      using a0 assms(1)
      by (simp add: binary64Div_def Let_def n_def [symmetric] bl bitLength_1000 big sq m_def)
  next
    case False
    have bl: "bitLength n = 42" using n(3) False bitLength_unique [of 41 n] by simp
    have "fst (scaledQuotient n 1000 (- 21)) < 2 ^ 53"
      using qhi by (simp add: sq)
    then have small: "(9007199254740992 \<le> q) = False" by (simp add: sq)
    show ?thesis
      using a0 assms(1)
      by (simp add: binary64Div_def Let_def n_def [symmetric] bl bitLength_1000 sq small m_def)
  qed
  have mlo: "2 ^ 52 \<le> m" and mhi: "m < 2 ^ 53"
    using qlo qhi by (auto simp: m_def)
  have near: "\<bar>real m * 1000 - real n * 2 ^ 21\<bar> \<le> 500"
  proof -
    have "real N = 1000 * real q + real r"
      using qr by (metis of_nat_add of_nat_mult of_nat_numeral)
    moreover have "real N = real n * 2 ^ 21" by (simp add: N_def)
    ultimately have "real n * 2 ^ 21 = 1000 * real q + real r" by simp
    then show ?thesis using r by (auto simp: m_def)
  qed
  have "real m / 2 ^ 21 - real n / 1000 = (real m * 1000 - real n * 2 ^ 21) / (1000 * 2 ^ 21)"
    by (simp add: field_simps)
  then have "\<bar>real m / 2 ^ 21 - real n / 1000\<bar> = \<bar>(real m * 1000 - real n * 2 ^ 21) / (1000 * 2 ^ 21)\<bar>"
    by (simp only:)
  also have "\<dots> = \<bar>real m * 1000 - real n * 2 ^ 21\<bar> / (1000 * 2 ^ 21)"
    by (simp only: abs_divide) simp
  also have "\<dots> \<le> 500 / (1000 * 2 ^ 21)"
    using near by (intro divide_right_mono) simp_all
  finally have "\<bar>real m / 2 ^ 21 - real n / 1000\<bar> \<le> 1 / 2 ^ 22" by simp
  moreover have "real_of_int (int m) = real m" "real_of_int a = real n"
    using n(1) by auto
  ultimately have "\<bar>real_of_int (int m) / 2 ^ 21 - real_of_int a / 1000\<bar> \<le> 1 / 2 ^ 22"
    by simp
  moreover have "(2::int) ^ 52 \<le> int m" "int m < 2 ^ 53"
    using mlo mhi by (metis of_nat_numeral of_nat_power of_nat_le_iff, metis of_nat_numeral of_nat_power of_nat_less_iff)
  ultimately show ?thesis using d by blast
qed

lemma timestamp_number_era:
  assumes "2147483648000 \<le> nowMs - referenceDate (ntpDefaults opts)"
      and "nowMs - referenceDate (ntpDefaults opts) < 4294967296000"
  shows "\<exists>m. ntpTimestampNumber opts nowMs = (m, 11) \<and> 2 ^ 52 \<le> m \<and> m < 2 ^ 53
             \<and> \<bar>real_of_int m / 2 ^ 21
                 - real_of_int (nowMs - referenceDate (ntpDefaults opts)) / 1000\<bar> \<le> 1 / 2 ^ 22"
proof -
  have "integerValue (binary64Div (nowMs - referenceDate (ntpDefaults opts)) 1)
          = nowMs - referenceDate (ntpDefaults opts)"
    using assms by (intro binary64Div_one) simp_all
  then show ?thesis
    using binary64Div_era [OF assms] by (auto simp: ntpTimestampNumber_def Let_def)
qed

subsection \<open>Claims\<close>





text \<open>
  C8. For a sample count that is not negative, the selected samples are the first
  \<open>min(sampleCount, accepted)\<close> elements of the accepted samples sorted by ascending
  delay (the sorted list is a permutation of the accepted samples), and every sample left
  out has a delay no smaller than every selected one. No sample outside the prefix
  influences the result: when \<open>getTime\<close> runs a network round and resolves, its offset
  and precision are computed from the selection out of the accepted replies alone.
\<close>

theorem selection_prefix:
  assumes "0 \<le> numSamples"
  shows "selectSamples numSamples samples
           = take (min (nat numSamples) (length samples)) (sort_key delay samples)
         \<and> sorted (map delay (sort_key delay samples))
         \<and> mset (sort_key delay samples) = mset samples
         \<and> length (selectSamples numSamples samples) = min (nat numSamples) (length samples)
         \<and> (\<forall>s \<in> set (selectSamples numSamples samples).
              \<forall>u \<in> set (drop (nat numSamples) (sort_key delay samples)). delay s \<le> delay u)
         \<and> (getTime opts force st tCheck rounds tPoll tDate = Some (Inr res, st', k) \<and> 0 < k \<longrightarrow>
              (\<exists>accepted retry.
                 collectLoop opts (sampleCount opts) rounds [] 0 0 = Some (accepted, retry, k)
                 \<and> res_offset res =
                     (if selectSamples (sampleCount opts) (map (computeSample opts) accepted) = []
                        then None
                      else Some (sum_list (map offset
                                   (selectSamples (sampleCount opts) (map (computeSample opts) accepted)))
                                 / real (length
                                   (selectSamples (sampleCount opts) (map (computeSample opts) accepted)))))
                 \<and> res_precision res =
                     stdDev (map offset
                       (selectSamples (sampleCount opts) (map (computeSample opts) accepted)))))"
proof -
  let ?ys = "sort_key delay samples"
  have srt: "sorted (map delay ?ys)" by simp
  have sel: "selectSamples numSamples samples = take (nat numSamples) ?ys"
    using assms by (rule selectSamples_take)
  have "take (nat numSamples) ?ys = take (min (nat numSamples) (length samples)) ?ys"
    by (simp add: min_def)
  moreover have "\<forall>s \<in> set (take (nat numSamples) ?ys).
                   \<forall>u \<in> set (drop (nat numSamples) ?ys). delay s \<le> delay u"
    using sorted_take_drop_le [OF srt] by blast
  ultimately have A: "selectSamples numSamples samples
           = take (min (nat numSamples) (length samples)) (sort_key delay samples)
         \<and> sorted (map delay (sort_key delay samples))
         \<and> mset (sort_key delay samples) = mset samples
         \<and> length (selectSamples numSamples samples) = min (nat numSamples) (length samples)
         \<and> (\<forall>s \<in> set (selectSamples numSamples samples).
              \<forall>u \<in> set (drop (nat numSamples) (sort_key delay samples)). delay s \<le> delay u)"
    using srt sel by simp
  have B: "\<exists>accepted retry.
                 collectLoop opts (sampleCount opts) rounds [] 0 0 = Some (accepted, retry, k)
                 \<and> res_offset res =
                     (if selectSamples (sampleCount opts) (map (computeSample opts) accepted) = []
                        then None
                      else Some (sum_list (map offset
                                   (selectSamples (sampleCount opts) (map (computeSample opts) accepted)))
                                 / real (length
                                   (selectSamples (sampleCount opts) (map (computeSample opts) accepted)))))
                 \<and> res_precision res =
                     stdDev (map offset
                       (selectSamples (sampleCount opts) (map (computeSample opts) accepted)))"
    if g: "getTime opts force st tCheck rounds tPoll tDate = Some (Inr res, st', k)" and k: "0 < k"
  proof -
    from getTime_fresh [OF g k] obtain selected where
      c: "collectSamples opts (sampleCount opts) rounds = Some (Inr selected, k)"
      and off: "res_offset res = (if selected = [] then None
                  else Some (sum_list (map offset selected) / real (length selected)))"
      and pr: "res_precision res = stdDev (map offset selected)"
      by blast
    from collectSamples_loop [OF c] obtain accepted retry where
      l: "collectLoop opts (sampleCount opts) rounds [] 0 0 = Some (accepted, retry, k)"
      and s: "selected = selectSamples (sampleCount opts) (map (computeSample opts) accepted)"
      by blast
    show ?thesis using l off pr unfolding s by blast
  qed
  show ?thesis using A B by blast
qed

theorem selection_prefix_witness:
  "selectSamples 1 [computeSample defaultOptions goodPacket, computeSample defaultOptions secondPacket]
     = [computeSample defaultOptions secondPacket]
   \<and> (\<exists>accepted retry.
          collectLoop (defaultOptions\<lparr>sampleCount := 2\<rparr>) 2 [twoReplies] [] 0 0
            = Some (accepted, retry, 1)
          \<and> stdDev (map offset (selectSamples 2
                 (map (computeSample (defaultOptions\<lparr>sampleCount := 2\<rparr>)) accepted))) = Some 1)"
proof -
  have le: "(0::int) \<le> 1" by simp
  note T = selection_prefix [OF le,
             where samples = "[computeSample defaultOptions goodPacket,
                               computeSample defaultOptions secondPacket]"
               and opts = "defaultOptions\<lparr>sampleCount := 2\<rparr>" and force = True
               and st = "\<lparr>lastPoll = None, lastResult = None\<rparr>"
               and tCheck = 0 and rounds = "[twoReplies]" and tPoll = 5000 and tDate = 5000
               and res = "\<lparr>now = Some 5021, res_offset = Some 21, res_precision = Some 1\<rparr>"
               and st' = "\<lparr>lastPoll = Some 5000,
                           lastResult = Some \<lparr>lr_offset = Some 21, lr_precision = Some 1\<rparr>\<rparr>"
               and k = 1]
  from T have "selectSamples 1 [computeSample defaultOptions goodPacket,
                                computeSample defaultOptions secondPacket]
                 = [computeSample defaultOptions secondPacket]"
    by (simp add: sample_values fields_default)
  moreover from T getTime_twoReplies have
    "\<exists>accepted retry.
          collectLoop (defaultOptions\<lparr>sampleCount := 2\<rparr>)
              (sampleCount (defaultOptions\<lparr>sampleCount := 2\<rparr>)) [twoReplies] [] 0 0
            = Some (accepted, retry, 1)
          \<and> res_precision \<lparr>now = Some 5021, res_offset = Some 21, res_precision = Some 1\<rparr>
              = stdDev (map offset (selectSamples (sampleCount (defaultOptions\<lparr>sampleCount := 2\<rparr>))
                 (map (computeSample (defaultOptions\<lparr>sampleCount := 2\<rparr>)) accepted)))"
    by blast
  ultimately show ?thesis by (auto simp del: collectLoop.simps)
qed







text \<open>
  C3 (as amended). When \<open>getTime\<close> goes to the network with a sample count of at least 1
  and every round yields no accepted sample, it rejects with the connection error after
  exactly \<open>max(1, maxRetries)\<close> rounds, and the error reports that number; the module
  variables are unchanged. Whenever a call of \<open>getTime\<close> that goes to the network rejects,
  the error is this connection error, reporting the number of rounds run, and each of
  these rounds yielded no accepted sample: no error of a single exchange reaches the
  caller.
\<close>

theorem exhaustion_after_retries:
  assumes "\<forall>r \<in> set rounds. roundResults opts r = []"
      and "1 \<le> sampleCount opts"
      and "max 1 (maxRetries opts) \<le> int (length rounds)"
      and "\<not> cacheHit opts force st tCheck"
  shows "getTime opts force st tCheck rounds tPoll tDate =
           Some (Inl (ConnectionError (nat (max 1 (maxRetries opts)))), st,
                 nat (max 1 (maxRetries opts)))
       \<and> (getTime opts force st tCheck rounds' tPoll tDate = Some (Inl e, st', k) \<longrightarrow>
            e = ConnectionError k \<and> st' = st
            \<and> (\<forall>r \<in> set (take k rounds'). roundResults opts r = []))"
proof -
  have ne: "rounds \<noteq> []" using assms(3) by auto
  have "collectLoop opts (sampleCount opts) rounds [] 0 0 =
           Some ([], nat (max 1 (maxRetries opts)), nat (max 1 (maxRetries opts)))"
    using collectLoop_all_fail [OF assms(1,2) ne, of 0 0] assms(3) by simp
  then have c: "collectSamples opts (sampleCount opts) rounds =
           Some (Inl (ConnectionError (nat (max 1 (maxRetries opts)))), nat (max 1 (maxRetries opts)))"
    by (simp add: collectSamples_def)
  note fresh = assms(4)
  have A: "getTime opts force st tCheck rounds tPoll tDate =
           Some (Inl (ConnectionError (nat (max 1 (maxRetries opts)))), st,
                 nat (max 1 (maxRetries opts)))"
    using getTime_Inl [OF fresh c] .
  have B: "e = ConnectionError k \<and> st' = st
            \<and> (\<forall>r \<in> set (take k rounds'). roundResults opts r = [])"
    if g: "getTime opts force st tCheck rounds' tPoll tDate = Some (Inl e, st', k)"
  proof (cases "collectSamples opts (sampleCount opts) rounds'")
    case None
    with g getTime_None [OF fresh] show ?thesis by simp
  next
    case (Some p)
    obtain out k' where p: "p = (out, k')" by (cases p)
    show ?thesis
    proof (cases out)
      case (Inl e')
      with Some p have c': "collectSamples opts (sampleCount opts) rounds' = Some (Inl e', k')"
        by simp
      from g getTime_Inl [OF fresh c', of tPoll tDate] have "e = e'" "st' = st" "k = k'"
        by simp_all
      with collectSamples_Inl [OF c'] show ?thesis by simp
    next
      case (Inr samples)
      with Some p have c': "collectSamples opts (sampleCount opts) rounds' = Some (Inr samples, k')"
        by simp
      from g getTime_Inr [OF fresh c' refl, of tPoll tDate] show ?thesis by simp
    qed
  qed
  show ?thesis using A B by blast
qed

theorem exhaustion_after_retries_witness:
  "getTime defaultOptions True \<lparr>lastPoll = None, lastResult = None\<rparr> 0
      [noReply, noReply, noReply] 0 0
   = Some (Inl (ConnectionError 3), \<lparr>lastPoll = None, lastResult = None\<rparr>, 3)"
  using exhaustion_after_retries [of "[noReply, noReply, noReply]" defaultOptions True
          "\<lparr>lastPoll = None, lastResult = None\<rparr>" 0 0 0]
  by (simp add: noReply_round fields_default cacheHit_def)

text \<open>
  C3 as stated fails for \<open>maxRetries = 0\<close>: the loop is a \<open>do ... while\<close>, so one round
  is run, not none, and the error reports 1.
\<close>

theorem exactly_maxRetries_rounds_counterexample:
  "getTime (defaultOptions\<lparr>maxRetries := 0\<rparr>) True \<lparr>lastPoll = None, lastResult = None\<rparr> 0
      [noReply] 0 0
   = Some (Inl (ConnectionError 1), \<lparr>lastPoll = None, lastResult = None\<rparr>, 1)"
  by (simp add: getTime_def cacheHit_def collectSamples_def noReply_round fields_default)

text \<open>
  C4. A call \<open>getTime(false)\<close> that follows a completed network round by less than
  \<open>2\<close> to the power \<open>minPoll\<close> seconds is to be served from the cache, with no network
  round. The code does so when the clock reading stored in \<open>lastPoll\<close> is not \<open>0\<close>
  (\<open>second_call_cached\<close>, \<open>cached_example\<close>), but the cache test reads \<open>lastPoll\<close> as a
  condition, and \<open>0\<close> is false: when the first round completes at a clock reading of
  \<open>0\<close>, a second call one millisecond later runs a network round of its own.
\<close>

theorem cache_bypassed_at_clock_zero:
  "getTime (defaultOptions\<lparr>sampleCount := 1\<rparr>) False \<lparr>lastPoll = None, lastResult = None\<rparr>
      0 [oneReply] 0 0
   = Some (Inr \<lparr>now = Some 20, res_offset = Some 20, res_precision = Some 0\<rparr>,
           \<lparr>lastPoll = Some 0,
            lastResult = Some \<lparr>lr_offset = Some 20, lr_precision = Some 0\<rparr>\<rparr>, 1)
   \<and> getTime (defaultOptions\<lparr>sampleCount := 1\<rparr>) False
        \<lparr>lastPoll = Some 0,
         lastResult = Some \<lparr>lr_offset = Some 20, lr_precision = Some 0\<rparr>\<rparr>
        1 [oneReply] 1 1
      = Some (Inr \<lparr>now = Some 21, res_offset = Some 20, res_precision = Some 0\<rparr>,
              \<lparr>lastPoll = Some 1,
               lastResult = Some \<lparr>lr_offset = Some 20, lr_precision = Some 0\<rparr>\<rparr>, 1)"
  by (simp add: getTime_def cacheHit_def collectSamples_one sample_values stdDev_def avg_def
        addUTCMilliseconds_def toIntegerOrInfinity_def Let_def)

text \<open>
  C2. Constructing the client with an option key that is not documented should fail with
  an error naming the key. The code does not: \<open>recursiveResolveOptions\<close> walks the keys
  of the defaults, so its test \<open>!(key in defaults)\<close> never holds and keys of the options
  that the defaults do not have are never looked at. An unknown key, at the top level
  or inside \<open>ntpDefaults\<close>, yields the default configuration, and no call of the
  constructor throws the \<open>Invalid option\<close> error.
\<close>

theorem unknown_option_ignored:
  "constructor (JObj [(''unknownOption'', JNum (Num 1))]) = Inr resolvedDefaultOptions
   \<and> constructor (JObj [(''ntpDefaults'', JObj [(''unknownOption'', JNum (Num 1))])])
       = Inr resolvedDefaultOptions
   \<and> (\<forall>options key. constructor options \<noteq> Inl (InvalidOption key))"
proof -
  have s: "js_get NtpTimeSyncDefaultOptions ''servers'' =
             Inr (JArr [JStr ''0.pool.ntp.org'', JStr ''1.pool.ntp.org'',
                        JStr ''2.pool.ntp.org'', JStr ''3.pool.ntp.org''])"
    by (simp add: NtpTimeSyncDefaultOptions_def)
  have 1: "constructor (JObj [(''unknownOption'', JNum (Num 1))]) = Inr resolvedDefaultOptions"
    by (simp add: constructor_def merge_unknown s resolve_default_servers del: mapServers.simps)
       (simp add: NtpTimeSyncDefaultOptions_def resolvedDefaultOptions_def setProperty_def)
  have 2: "constructor (JObj [(''ntpDefaults'', JObj [(''unknownOption'', JNum (Num 1))])])
       = Inr resolvedDefaultOptions"
    by (simp add: constructor_def merge_nested_unknown s resolve_default_servers
             del: mapServers.simps)
       (simp add: NtpTimeSyncDefaultOptions_def resolvedDefaultOptions_def setProperty_def)
  show ?thesis using 1 2 constructor_no_InvalidOption by blast
qed



text \<open>
  C9 (as amended). Every packet has 48 bytes; bytes 24 to 31 equal bytes 40 to 47; every
  byte other than byte 0 and these sixteen is zero; when the leap indicator is below 4
  and version and mode are below 8, byte 0 is \<open>64 * leapIndicator + 8 * version + mode\<close>,
  their concatenation on 2, 3 and 3 bits. The timestamp bytes are eight-character slices
  of the binary rendering, padded with zeros on the left to 64 characters, of the
  binary64 number \<open>seconds * 2 ^ 32\<close>, in which the quotient \<open>seconds\<close> has been rounded
  to 53 significant bits and the product is not rounded to an integer: whenever that
  number is a non-negative integer below \<open>2 ^ 64\<close>, they are its eight big-endian bytes.
  It is so whenever the clock is at least \<open>2 ^ 31\<close> and less than \<open>2 ^ 32\<close> seconds
  past the reference date (from 1968 to 2036 for the default one): the number is then
  \<open>m * 2 ^ 11\<close>, with \<open>m / 2 ^ 21\<close> within \<open>2 ^ - 22\<close> of the seconds elapsed.
\<close>

theorem createPacket_layout:
  "length (createPacket opts leapInd ntpVersion mode nowMs) = 48
   \<and> (\<forall>i<8. createPacket opts leapInd ntpVersion mode nowMs ! (24 + i)
              = createPacket opts leapInd ntpVersion mode nowMs ! (40 + i))
   \<and> (\<forall>i<48. i \<noteq> 0 \<and> \<not> (24 \<le> i \<and> i < 32) \<and> i < 40 \<longrightarrow>
              createPacket opts leapInd ntpVersion mode nowMs ! i = 0)
   \<and> (0 \<le> leapInd \<and> leapInd < 4
        \<and> 0 \<le> versionOrDefault opts ntpVersion \<and> versionOrDefault opts ntpVersion < 8
        \<and> 0 \<le> mode \<and> mode < 8 \<longrightarrow>
        createPacket opts leapInd ntpVersion mode nowMs ! 0
          = word_of_int (64 * leapInd + 8 * versionOrDefault opts ntpVersion + mode))
   \<and> (\<forall>m e. ntpTimestampNumber opts nowMs = (m, e) \<and> 0 \<le> m \<and> 0 \<le> e \<and> m * 2 ^ nat e < 2 ^ 64 \<longrightarrow>
          (\<forall>i<8. createPacket opts leapInd ntpVersion mode nowMs ! (24 + i)
                   = word_of_int (m * 2 ^ nat e div 2 ^ (8 * (7 - i)))))
   \<and> (2147483648000 \<le> nowMs - referenceDate (ntpDefaults opts)
        \<and> nowMs - referenceDate (ntpDefaults opts) < 4294967296000 \<longrightarrow>
        (\<exists>m. 2 ^ 52 \<le> m \<and> m < 2 ^ 53
             \<and> \<bar>real_of_int m / 2 ^ 21
                 - real_of_int (nowMs - referenceDate (ntpDefaults opts)) / 1000\<bar> \<le> 1 / 2 ^ 22
             \<and> (\<forall>i<8. createPacket opts leapInd ntpVersion mode nowMs ! (24 + i)
                        = word_of_int (m * 2 ^ 11 div 2 ^ (8 * (7 - i))))))"
proof -
  define b0 where "b0 = toUint8 (parseInt2
                      (pad (toBinary (toUint32 leapInd)) 2
                       @ pad (toBinary (toUint32 (versionOrDefault opts ntpVersion))) 3
                       @ pad (toBinary (toUint32 mode)) 3))"
  define ts where "ts = map (\<lambda>i. toUint8 (parseInt2
                      (substr (pad (toString2 (ntpTimestampNumber opts nowMs)) 64) (8 * i) 8))) [0..<8]"
  have pkt: "createPacket opts leapInd ntpVersion mode nowMs
               = b0 # replicate 23 0 @ ts @ replicate 8 0 @ ts"
    unfolding createPacket_explicit b0_def ts_def Let_def ..
  have len: "length ts = 8" by (simp add: ts_def)
  note sh = packet_shape [OF len, where first = b0 and z = 0, folded pkt]
  have 4: "createPacket opts leapInd ntpVersion mode nowMs ! 0
          = word_of_int (64 * leapInd + 8 * versionOrDefault opts ntpVersion + mode)"
    if "0 \<le> leapInd \<and> leapInd < 4
        \<and> 0 \<le> versionOrDefault opts ntpVersion \<and> versionOrDefault opts ntpVersion < 8
        \<and> 0 \<le> mode \<and> mode < 8"
    using that first_byte [of leapInd "versionOrDefault opts ntpVersion" mode]
    by (simp add: sh(5) b0_def)
  have 5: "createPacket opts leapInd ntpVersion mode nowMs ! (24 + i)
                   = word_of_int (m * 2 ^ nat e div 2 ^ (8 * (7 - i)))"
    if "ntpTimestampNumber opts nowMs = (m, e) \<and> 0 \<le> m \<and> 0 \<le> e \<and> m * 2 ^ nat e < 2 ^ 64"
       and "i < 8" for m e i
  proof -
    have "ts ! i = toUint8 (parseInt2
                      (substr (pad (toString2 (ntpTimestampNumber opts nowMs)) 64) (8 * i) 8))"
      using that(2) by (simp add: ts_def)
    then show ?thesis
      using that timestamp_byte [of m e i] by (simp add: sh(2))
  qed
  have 6: "\<exists>m. 2 ^ 52 \<le> m \<and> m < 2 ^ 53
             \<and> \<bar>real_of_int m / 2 ^ 21
                 - real_of_int (nowMs - referenceDate (ntpDefaults opts)) / 1000\<bar> \<le> 1 / 2 ^ 22
             \<and> (\<forall>i<8. createPacket opts leapInd ntpVersion mode nowMs ! (24 + i)
                        = word_of_int (m * 2 ^ 11 div 2 ^ (8 * (7 - i))))"
    if era: "2147483648000 \<le> nowMs - referenceDate (ntpDefaults opts)
             \<and> nowMs - referenceDate (ntpDefaults opts) < 4294967296000"
  proof -
    from era timestamp_number_era [of nowMs opts] obtain m where
      m: "ntpTimestampNumber opts nowMs = (m, 11)" "2 ^ 52 \<le> m" "m < 2 ^ 53"
         "\<bar>real_of_int m / 2 ^ 21
            - real_of_int (nowMs - referenceDate (ntpDefaults opts)) / 1000\<bar> \<le> 1 / 2 ^ 22"
      by blast
    from m(2,3) have "0 \<le> m" "m * 2 ^ nat 11 < 2 ^ 64" by simp_all
    with m(1) 5 [of m 11] have
      "\<forall>i<8. createPacket opts leapInd ntpVersion mode nowMs ! (24 + i)
                = word_of_int (m * 2 ^ 11 div 2 ^ (8 * (7 - i)))"
      by simp
    with m(2,3,4) show ?thesis by blast
  qed
  show ?thesis
    using sh(1) sh(2) sh(3) sh(4) 4 5 6 by (intro conjI allI impI) simp_all
qed

theorem createPacket_layout_witness:
  "createPacket defaultOptions 3 None 3 1700000000001 ! 0 = 227
   \<and> createPacket defaultOptions 3 None 3 1700000000001 ! 24 = 232
   \<and> createPacket defaultOptions 3 None 3 1700000000001 ! 30 = 136
   \<and> createPacket defaultOptions 3 None 3 1700000000001 ! 40 = 232"
proof -
  note T = createPacket_layout [of defaultOptions 3 None 3 1700000000001]
  have v: "versionOrDefault defaultOptions None = 4"
    by (simp add: versionOrDefault_def fields_default defaultNtpDefaults_def)
  from T have b0: "createPacket defaultOptions 3 None 3 1700000000001 ! 0 = 227"
    by (simp add: v)
  from T have E: "ntpTimestampNumber defaultOptions 1700000000001 = (m, e) \<and> 0 \<le> m \<and> 0 \<le> e
                    \<and> m * 2 ^ nat e < 2 ^ 64 \<Longrightarrow> i < 8 \<Longrightarrow>
                  createPacket defaultOptions 3 None 3 1700000000001 ! (24 + i)
                   = word_of_int (m * 2 ^ nat e div 2 ^ (8 * (7 - i)))" for m e i
    by blast
  from T have B: "i < 8 \<Longrightarrow> createPacket defaultOptions 3 None 3 1700000000001 ! (24 + i)
              = createPacket defaultOptions 3 None 3 1700000000001 ! (40 + i)" for i
    by blast
  have t0: "createPacket defaultOptions 3 None 3 1700000000001 ! 24 = 232"
    using E [of 8197743679899697 11 0] timestamp_number_example by simp
  have t6: "createPacket defaultOptions 3 None 3 1700000000001 ! 30 = 136"
    using E [of 8197743679899697 11 6] timestamp_number_example by simp
  have "createPacket defaultOptions 3 None 3 1700000000001 ! 40 = 232"
    using B [of 0] t0 by simp
  with b0 t0 t6 show ?thesis by simp
qed

text \<open>
  C9 as stated fails in its timestamp. At a clock reading of 1700000000001 (November
  2023) the bytes are those of \<open>8197743679899697 * 2 ^ 11\<close>, whose last eleven bits are
  zero, where the rounded product of the claim ends in the bytes 137 and 55. At the
  clock reading 2085978496000 (7 February 2036) the number is \<open>2 ^ 64\<close>, as is the
  rounded product of the claim, computed exactly or in binary64: its rendering has 65
  digits, not 64, and the eight bytes are those of \<open>2 ^ 63\<close>.
\<close>

theorem rounded_product_counterexample:
  "take 8 (drop 24 (createPacket defaultOptions 3 None 3 1700000000001))
     = [232, 254, 111, 128, 0, 65, 136, 0]
   \<and> referenceDate (ntpDefaults defaultOptions) = - 2208988800000
   \<and> specTimestamp 1700000000001 (- 2208988800000) = 16788979056434579767
   \<and> specTimestampBytes 16788979056434579767 = [232, 254, 111, 128, 0, 65, 137, 55]
   \<and> take 8 (drop 24 (createPacket defaultOptions 3 None 3 2085978496000))
     = [128, 0, 0, 0, 0, 0, 0, 0]
   \<and> specTimestamp 2085978496000 (- 2208988800000) = 2 ^ 64"
  by (simp add: packet_example packet_rollover specTimestamp_example specTimestamp_rollover
        specTimestampBytes_def upt_rec fields_default defaultNtpDefaults_def)

end
